theory Spec2Isabelle
  imports Complex_Main "HOL-Library.Log_Nat"
begin

section \<open>Numbers\<close>

text \<open>
  A TypeScript \<open>number\<close> is a double; its value is a real number here.
\<close>

text \<open>
  Where the program adds or subtracts a full turn or a step, the sum is rounded to double
  precision, and the properties below depend on it. \<open>fl\<close> is that rounding: the nearest
  number with 53 significant bits, a tie going to the even one. \<open>binade\<close> is the exponent
  of the power of two at or below the magnitude, \<open>roundEven\<close> the nearest integer with
  ties to even. The exponent is not bounded: a sum or difference of two doubles is far
  below the overflow threshold here and is exact where it is subnormal. Everything else
  is the exact value of its expression: the constants of the sector table and the half
  degrees are small dyadic numbers on which double arithmetic is exact, and \<open>Math.atan2\<close>
  and \<open>Math.PI\<close>, which the language leaves to the implementation, are the exact
  arctangent and the exact \<open>pi\<close>.
\<close>

definition roundEven :: "real \<Rightarrow> int" where
  "roundEven r =
     (let f = \<lfloor>r\<rfloor>; d = r - of_int f
      in if d < 1 / 2 then f else if 1 / 2 < d then f + 1 else if even f then f else f + 1)"

definition binade :: "real \<Rightarrow> int" where
  "binade y =
     (if 1 \<le> \<bar>y\<bar> then bitlen \<lfloor>\<bar>y\<bar>\<rfloor> - 1 else - bitlen (\<lceil>1 / \<bar>y\<bar>\<rceil> - 1))"

definition fl :: "real \<Rightarrow> real" where
  "fl y = of_int (roundEven (y / 2 powi (binade y - 52))) * 2 powi (binade y - 52)"

text \<open>Truncation towards zero, the integer quotient behind the remainder operator.\<close>

definition js_trunc :: "real \<Rightarrow> int" where
  "js_trunc r = (if 0 \<le> r then \<lfloor>r\<rfloor> else - \<lfloor>- r\<rfloor>)"

text \<open>
  The operator \<open>x % y\<close>: the remainder takes the sign of the dividend. The only divisor
  in the program is the literal \<open>360\<close>.
\<close>

definition js_rem :: "real \<Rightarrow> real \<Rightarrow> real" where
  "js_rem x y = x - y * of_int (js_trunc (x / y))"

text \<open>\<open>Math.round\<close>: the nearest integer, a tie going towards plus infinity.\<close>

definition Math_round :: "real \<Rightarrow> real" where
  "Math_round x = of_int \<lfloor>x + 1 / 2\<rfloor>"

section \<open>Numbers as text\<close>

text \<open>
  A string is the list of its code units, here the ones below 256. \<open>digitChar\<close> is the character of a digit below
  ten, and \<open>digitsOf\<close> the decimal representation of a natural number, as short as
  possible.
\<close>

definition digitChar :: "nat \<Rightarrow> char" where
  "digitChar d = ''0123456789'' ! (d mod 10)"

fun digitsOf :: "nat \<Rightarrow> string" where
  "digitsOf n =
     (if n < 10 then [digitChar n] else digitsOf (n div 10) @ [digitChar (n mod 10)])"

declare digitsOf.simps [simp del]

text \<open>
  \<open>x.toFixed(f)\<close> for a finite \<open>x\<close> below \<open>10^21\<close> in magnitude: a minus sign when
  \<open>x < 0\<close>; the integer \<open>n\<close> nearest to \<open>|x| * 10^f\<close>, the larger one on a tie; the
  digits of \<open>n\<close>, padded on the left with zeros to \<open>f + 1\<close> digits, with a point before
  the last \<open>f\<close> of them when \<open>f\<close> is not zero.
\<close>

definition toFixed :: "nat \<Rightarrow> real \<Rightarrow> string" where
  "toFixed f x =
     (let s = (if x < 0 then ''-'' else []);
          x = (if x < 0 then - x else x);
          n = nat \<lfloor>x * 10 ^ f + 1 / 2\<rfloor>;
          m = digitsOf n;
          m = (if f \<noteq> 0
               then (let k = length m;
                         m = (if k \<le> f then replicate (f + 1 - k) (CHR ''0'') @ m else m);
                         k = (if k \<le> f then f + 1 else k)
                     in take (k - f) m @ ''.'' @ drop (k - f) m)
               else m)
      in s @ m)"

text \<open>The integer whose digits \<open>toFixed\<close> writes.\<close>

definition nearest :: "nat \<Rightarrow> real \<Rightarrow> nat" where
  "nearest f x = nat \<lfloor>\<bar>x\<bar> * 10 ^ f + 1 / 2\<rfloor>"

definition isDigit :: "char \<Rightarrow> bool" where
  "isDigit c = (48 \<le> (of_char c :: nat) \<and> (of_char c :: nat) \<le> 57)"

definition digitValue :: "char \<Rightarrow> nat" where
  "digitValue c = of_char c - 48"

definition digitsValue :: "string \<Rightarrow> nat" where
  "digitsValue ds = foldl (\<lambda>acc c. 10 * acc + digitValue c) 0 ds"

definition isWhiteSpace :: "char \<Rightarrow> bool" where
  "isWhiteSpace c =
     (c \<in> set [CHR '' '', CHR 0x09, CHR 0x0A, CHR 0x0B, CHR 0x0C, CHR 0x0D, CHR 0xA0])"

text \<open>
  The sign that \<open>parseFloat\<close> and \<open>parseInt\<close> read first, and the text after it.
\<close>

definition readSign :: "string \<Rightarrow> int \<times> string" where
  "readSign s =
     (case s of
        [] \<Rightarrow> (1, s)
      | c # r \<Rightarrow> if c = CHR ''-'' then (- 1, r) else if c = CHR ''+'' then (1, r) else (1, s))"

text \<open>
  \<open>parseFloat\<close> on texts without an exponent part and without the word \<open>Infinity\<close>
  (\<open>toFixed\<close> writes neither): leading white space is skipped, then a sign, digits, and a
  point with digits are read as far as they go; the rest is ignored. \<open>None\<close> is \<open>NaN\<close>,
  the result when no digit was read.
\<close>

definition parseFloat :: "string \<Rightarrow> real option" where
  "parseFloat str =
     (let (sign, s) = readSign (dropWhile isWhiteSpace str);
          ip = takeWhile isDigit s;
          r = dropWhile isDigit s;
          fp = (case r of
                  [] \<Rightarrow> []
                | c # t \<Rightarrow> if c = CHR ''.'' then takeWhile isDigit t else [])
      in if ip = [] \<and> fp = [] then None
         else Some (of_int sign * (real (digitsValue ip) + real (digitsValue fp) / 10 ^ length fp)))"

text \<open>
  \<open>n.toString()\<close> of an integer, and \<open>parseInt(str, 10)\<close>: white space, a sign and the
  digits that follow; \<open>None\<close> is \<open>NaN\<close>.
\<close>

definition toString :: "int \<Rightarrow> string" where
  "toString n = (if n < 0 then ''-'' @ digitsOf (nat (- n)) else digitsOf (nat n))"

definition parseInt :: "string \<Rightarrow> int option" where
  "parseInt str =
     (let (sign, s) = readSign (dropWhile isWhiteSpace str);
          ip = takeWhile isDigit s
      in if ip = [] then None else Some (sign * int (digitsValue ip)))"

section \<open>The sector table (constants.ts, types.ts)\<close>

text \<open>
  The interface \<open>Mountain\<close>. The fields \<open>chineseName\<close>, \<open>name\<close> and \<open>description\<close> hold
  Chinese and Cyrillic display texts, which only the drawing, the wording of the AI prompt
  and the voice search read; the record keeps the identifying and the geometric fields.
  The field \<open>id\<close> is called \<open>id_str\<close> here.
\<close>

record Mountain =
  id_str :: string
  pinyin :: string
  element :: string
  direction :: string
  startDegree :: real
  endDegree :: real

definition MOUNTAINS :: "Mountain list" where
  "MOUNTAINS =
    [
     \<lparr>id_str = ''n1'', pinyin = ''Ren'', element = ''Water'', direction = ''N1'',
      startDegree = 337.5, endDegree = 352.5\<rparr>,
     \<lparr>id_str = ''n2'', pinyin = ''Zi'', element = ''Water'', direction = ''N2'',
      startDegree = 352.5, endDegree = 7.5\<rparr>,
     \<lparr>id_str = ''n3'', pinyin = ''Gui'', element = ''Water'', direction = ''N3'',
      startDegree = 7.5, endDegree = 22.5\<rparr>,
     \<lparr>id_str = ''ne1'', pinyin = ''Chou'', element = ''Earth'', direction = ''NE1'',
      startDegree = 22.5, endDegree = 37.5\<rparr>,
     \<lparr>id_str = ''ne2'', pinyin = ''Gen'', element = ''Earth'', direction = ''NE2'',
      startDegree = 37.5, endDegree = 52.5\<rparr>,
     \<lparr>id_str = ''ne3'', pinyin = ''Yin'', element = ''Wood'', direction = ''NE3'',
      startDegree = 52.5, endDegree = 67.5\<rparr>,
     \<lparr>id_str = ''e1'', pinyin = ''Jia'', element = ''Wood'', direction = ''E1'',
      startDegree = 67.5, endDegree = 82.5\<rparr>,
     \<lparr>id_str = ''e2'', pinyin = ''Mao'', element = ''Wood'', direction = ''E2'',
      startDegree = 82.5, endDegree = 97.5\<rparr>,
     \<lparr>id_str = ''e3'', pinyin = ''Yi'', element = ''Wood'', direction = ''E3'',
      startDegree = 97.5, endDegree = 112.5\<rparr>,
     \<lparr>id_str = ''se1'', pinyin = ''Chen'', element = ''Earth'', direction = ''SE1'',
      startDegree = 112.5, endDegree = 127.5\<rparr>,
     \<lparr>id_str = ''se2'', pinyin = ''Xun'', element = ''Wood'', direction = ''SE2'',
      startDegree = 127.5, endDegree = 142.5\<rparr>,
     \<lparr>id_str = ''se3'', pinyin = ''Si'', element = ''Fire'', direction = ''SE3'',
      startDegree = 142.5, endDegree = 157.5\<rparr>,
     \<lparr>id_str = ''s1'', pinyin = ''Bing'', element = ''Fire'', direction = ''S1'',
      startDegree = 157.5, endDegree = 172.5\<rparr>,
     \<lparr>id_str = ''s2'', pinyin = ''Wu'', element = ''Fire'', direction = ''S2'',
      startDegree = 172.5, endDegree = 187.5\<rparr>,
     \<lparr>id_str = ''s3'', pinyin = ''Ding'', element = ''Fire'', direction = ''S3'',
      startDegree = 187.5, endDegree = 202.5\<rparr>,
     \<lparr>id_str = ''sw1'', pinyin = ''Wei'', element = ''Earth'', direction = ''SW1'',
      startDegree = 202.5, endDegree = 217.5\<rparr>,
     \<lparr>id_str = ''sw2'', pinyin = ''Kun'', element = ''Earth'', direction = ''SW2'',
      startDegree = 217.5, endDegree = 232.5\<rparr>,
     \<lparr>id_str = ''sw3'', pinyin = ''Shen'', element = ''Metal'', direction = ''SW3'',
      startDegree = 232.5, endDegree = 247.5\<rparr>,
     \<lparr>id_str = ''w1'', pinyin = ''Geng'', element = ''Metal'', direction = ''W1'',
      startDegree = 247.5, endDegree = 262.5\<rparr>,
     \<lparr>id_str = ''w2'', pinyin = ''You'', element = ''Metal'', direction = ''W2'',
      startDegree = 262.5, endDegree = 277.5\<rparr>,
     \<lparr>id_str = ''w3'', pinyin = ''Xin'', element = ''Metal'', direction = ''W3'',
      startDegree = 277.5, endDegree = 292.5\<rparr>,
     \<lparr>id_str = ''nw1'', pinyin = ''Xu'', element = ''Earth'', direction = ''NW1'',
      startDegree = 292.5, endDegree = 307.5\<rparr>,
     \<lparr>id_str = ''nw2'', pinyin = ''Qian'', element = ''Metal'', direction = ''NW2'',
      startDegree = 307.5, endDegree = 322.5\<rparr>,
     \<lparr>id_str = ''nw3'', pinyin = ''Hai'', element = ''Water'', direction = ''NW3'',
      startDegree = 322.5, endDegree = 337.5\<rparr>
    ]"

text \<open>
  Modelled from the spec: the repository has no sector-lookup function (a sector is chosen
  by clicking its drawn segment), so the containment test is the one of the spec's
  section 4.2: a sector holds the angles of its half-open range, and the sector whose end
  is numerically below its start holds an angle when \<open>angle >= startDegree OR angle <
  endDegree\<close>.
\<close>

definition containsAngle :: "Mountain \<Rightarrow> real \<Rightarrow> bool" where
  "containsAngle m a =
     (if endDegree m < startDegree m
      then startDegree m \<le> a \<or> a < endDegree m
      else startDegree m \<le> a \<and> a < endDegree m)"

text \<open>
  Modelled from the spec: \<open>sectorAt\<close> of section 4.2, the first sector of the table that
  contains the angle.
\<close>

definition sectorAt :: "real \<Rightarrow> Mountain option" where
  "sectorAt a = find (\<lambda>m. containsAngle m a) MOUNTAINS"

section \<open>Arc midpoint (CompassOverlay label position, App.fetchMountainAltitudes)\<close>

text \<open>
  Both places run the same three statements: \<open>let s = startDegree; let e = endDegree;
  if (e < s) e += 360\<close>. The first definition is the adjusted end, the second the value
  \<open>(s + e) / 2\<close> that the overlay calls \<open>midDegree\<close> and the application calls \<open>mid\<close>.
\<close>

definition wrapAdjustedEnd :: "Mountain \<Rightarrow> real" where
  "wrapAdjustedEnd m =
     (if endDegree m < startDegree m then endDegree m + 360 else endDegree m)"

definition midDegree :: "Mountain \<Rightarrow> real" where
  "midDegree m = (startDegree m + wrapAdjustedEnd m) / 2"

section \<open>Angle normalisation (geminiService.analyzeDirection, App)\<close>


text \<open>
  \<open>const normalizedRotation = ((rotation % 360) + 360) % 360\<close>: the remainders are exact,
  the sum is rounded.
\<close>

definition normalizedRotation :: "real \<Rightarrow> real" where
  "normalizedRotation rotation = js_rem (fl (js_rem rotation 360 + 360)) 360"

text \<open>
  \<open>const templateRotation = useDeclination ? declination : 0;
  const normalizedTemplateRotation = ((templateRotation % 360) + 360) % 360\<close>
\<close>

definition templateRotation :: "bool \<Rightarrow> real \<Rightarrow> real" where
  "templateRotation useDeclination declination = (if useDeclination then declination else 0)"

definition normalizedTemplateRotation :: "bool \<Rightarrow> real \<Rightarrow> real" where
  "normalizedTemplateRotation useDeclination declination =
     js_rem (fl (js_rem (templateRotation useDeclination declination) 360 + 360)) 360"

section \<open>Facade rotation (App.handleFacadeRotationChange, App.adjustFacadeRotation)\<close>

text \<open>
  The setter corrects its argument by at most one turn in each direction, each
  correction a rounded difference or sum, and stores the result; the function below is
  the value handed to \<open>setFacadeRotation\<close>.
\<close>

definition handleFacadeRotationChange :: "real \<Rightarrow> real" where
  "handleFacadeRotationChange val =
     (let newRot = val;
          newRot = (if 360 \<le> newRot then fl (newRot - 360) else newRot);
          newRot = (if newRot < 0 then fl (newRot + 360) else newRot)
      in newRot)"


text \<open>
  The voice command, as far as it sets the rotation: the first match of
  \<open>/(\d+(\.\d+)?)/\<close> in the transcript, digits and then a point with digits if there are
  any, is parsed, and unless the result is \<open>NaN\<close> the number, a double, goes to the setter
  with no check of its size.
\<close>

definition numberMatch :: "string \<Rightarrow> string option" where
  "numberMatch transcript =
     (let s = dropWhile (\<lambda>c. \<not> isDigit c) transcript;
          whole = takeWhile isDigit s;
          r = dropWhile isDigit s;
          fraction = (case r of
                        [] \<Rightarrow> []
                      | c # t \<Rightarrow> if c = CHR ''.'' \<and> takeWhile isDigit t \<noteq> []
                                 then c # takeWhile isDigit t else [])
      in if whole = [] then None else Some (whole @ fraction))"

definition handleGlobalVoiceCommand :: "real \<Rightarrow> string \<Rightarrow> real" where
  "handleGlobalVoiceCommand facadeRotation transcript =
     (case numberMatch transcript of
        None \<Rightarrow> facadeRotation
      | Some text \<Rightarrow>
          (case parseFloat text of
             None \<Rightarrow> facadeRotation
           | Some degree \<Rightarrow> handleFacadeRotationChange (fl degree)))"

section \<open>Drag rotation (CompassOverlay)\<close>

text \<open>
  \<open>Math.atan2(y, x)\<close>, exact: the angle of the point \<open>(x, y)\<close> in \<open>(-pi, pi]\<close>, and \<open>0\<close>
  at the origin.
\<close>

definition Math_atan2 :: "real \<Rightarrow> real \<Rightarrow> real" where
  "Math_atan2 y x =
     (if 0 < x then arctan (y / x)
      else if x < 0 then (if 0 \<le> y then arctan (y / x) + pi else arctan (y / x) - pi)
      else if 0 < y then pi / 2
      else if y < 0 then - (pi / 2)
      else 0)"

text \<open>The bounding rectangle of the overlay's container element.\<close>

record DOMRect =
  left :: real
  top :: real
  width :: real
  height :: real

text \<open>
  A mouse event carries \<open>clientX\<close> and \<open>clientY\<close>; a touch event carries the list
  \<open>touches\<close> of such pairs.
\<close>

datatype PointerEvent = MouseEvent real real | TouchEvent "(real \<times> real) list"

text \<open>
  What a handler of the overlay does, in order: calls to \<open>navigator.vibrate\<close>, to the
  \<open>onFacadeChange\<close> property, to \<open>setIsDraggingFacade\<close>, to the event's \<open>preventDefault\<close>
  and \<open>stopPropagation\<close>, and the registration and removal of the four window listeners.
\<close>

datatype Effect =
    Vibrate nat
  | OnFacadeChange real
  | SetIsDraggingFacade bool
  | PreventDefault
  | StopPropagation
  | AddWindowListeners
  | RemoveWindowListeners

datatype JsError = TypeError

text \<open>
  What the handlers read: the container reference, the \<open>onFacadeChange\<close> and
  \<open>isInteractive\<close> properties, the rotation reference that an effect keeps equal to the
  \<open>facadeRotation\<close> property, and whether \<open>navigator.vibrate\<close> exists.
\<close>

record Overlay =
  containerRef :: "DOMRect option"
  onFacadeChange :: bool
  isInteractive :: bool
  facadeRotationRef :: real
  navigatorVibrate :: bool

text \<open>\<open>e.touches[0]\<close> of a touch event without touches is \<open>undefined\<close>, and reading its
  \<open>clientX\<close> throws.\<close>

fun clientXY :: "PointerEvent \<Rightarrow> JsError + (real \<times> real)" where
  "clientXY (MouseEvent cx cy) = Inr (cx, cy)"
| "clientXY (TouchEvent []) = Inl TypeError"
| "clientXY (TouchEvent (t # ts)) = Inr t"

text \<open>
  \<open>let angle = (Math.atan2(y, x) * 180 / Math.PI) + 90; if (angle < 0) angle += 360\<close>:
  the angle of the first statement is exact, the sum of the second is rounded.
\<close>

definition pointerAngle :: "real \<Rightarrow> real \<Rightarrow> real" where
  "pointerAngle x y =
     (let angle = Math_atan2 y x * 180 / pi + 90
      in if angle < 0 then fl (angle + 360) else angle)"

definition calculateRotation :: "Overlay \<Rightarrow> PointerEvent \<Rightarrow> JsError + Effect list" where
  "calculateRotation ov e =
     (case containerRef ov of
        None \<Rightarrow> Inr []
      | Some rect \<Rightarrow>
          if \<not> onFacadeChange ov then Inr []
          else
            let centerX = left rect + width rect / 2;
                centerY = top rect + height rect / 2
            in case clientXY e of
                 Inl err \<Rightarrow> Inl err
               | Inr (clientX, clientY) \<Rightarrow>
                   let x = clientX - centerX;
                       y = clientY - centerY;
                       angle = pointerAngle x y;
                       currentRot = facadeRotationRef ov;
                       snapped = Math_round (angle * 2) / 2;
                       prevSnapped = Math_round (currentRot * 2) / 2
                   in Inr ((if snapped \<noteq> prevSnapped \<and> navigatorVibrate ov
                            then [Vibrate 5] else [])
                           @ [OnFacadeChange angle]))"

text \<open>The release handler that \<open>handleFacadeDragStart\<close> registers.\<close>

definition handleUp :: "Overlay \<Rightarrow> Effect list" where
  "handleUp ov =
     [SetIsDraggingFacade False, RemoveWindowListeners]
     @ (if navigatorVibrate ov then [Vibrate 10] else [])
     @ (if onFacadeChange ov
        then (let currentRot = facadeRotationRef ov;
                  snappedRot = Math_round (currentRot * 2) / 2
              in [OnFacadeChange snappedRot])
        else [])"

text \<open>
  The press handler, with the effects it has had and the exception it ends with, if any:
  when the first \<open>calculateRotation\<close> throws, the handler ends before the listeners are
  registered. \<open>handleMove\<close> is \<open>calculateRotation\<close>, and \<open>handleUp\<close> is registered only
  here, behind the check of \<open>onFacadeChange\<close>.
\<close>

definition handleFacadeDragStart ::
  "Overlay \<Rightarrow> PointerEvent \<Rightarrow> Effect list \<times> JsError option" where
  "handleFacadeDragStart ov e =
     (if \<not> isInteractive ov \<or> \<not> onFacadeChange ov then ([], None)
      else case calculateRotation ov e of
             Inl err \<Rightarrow>
               ([PreventDefault, StopPropagation, SetIsDraggingFacade True], Some err)
           | Inr moved \<Rightarrow>
               ([PreventDefault, StopPropagation, SetIsDraggingFacade True]
                @ moved
                @ (if navigatorVibrate ov then [Vibrate 20] else [])
                @ [AddWindowListeners], None))"

text \<open>
  The application passes \<open>handleFacadeRotationChange\<close> as \<open>onFacadeChange\<close>: running a
  handler's effects against the stored facade rotation applies the setter at every
  \<open>OnFacadeChange\<close>, so the last report decides the stored value.
\<close>

fun applyEffects :: "real \<Rightarrow> Effect list \<Rightarrow> real" where
  "applyEffects facadeRotation [] = facadeRotation"
| "applyEffects facadeRotation (OnFacadeChange v # es) =
     applyEffects (handleFacadeRotationChange v) es"
| "applyEffects facadeRotation (_ # es) = applyEffects facadeRotation es"

text \<open>The values a handler passes to \<open>onFacadeChange\<close>, in order.\<close>

fun reported :: "Effect list \<Rightarrow> real list" where
  "reported [] = []"
| "reported (OnFacadeChange v # es) = v # reported es"
| "reported (_ # es) = reported es"

section \<open>Network collaborators (geoService.ts)\<close>

text \<open>A value parsed from a JSON response body.\<close>

datatype Json =
    JNull
  | JBool bool
  | JNumber real
  | JString string
  | JArray "Json list"
  | JObject "(string \<times> Json) list"

text \<open>
  What \<open>await response.json()\<close> gives: the parsed value, or a rejection when the body is
  not JSON. What \<open>await fetch(url)\<close> gives: a rejection, or a response with its \<open>ok\<close>
  flag and its body.
\<close>

datatype Body = InvalidJson | Parsed Json

datatype FetchOutcome = NetworkError | Response bool Body

text \<open>
  The network is a function from the requested address to the outcome of the request.
  Every function below returns, with its result, the list of the addresses it requested.
\<close>

type_synonym Network = "string \<Rightarrow> FetchOutcome"

text \<open>
  \<open>searchAddress\<close>. The query is a list of code units of any kind, and its length their
  number. \<open>encodeURIComponent\<close> is a parameter; it gives \<open>None\<close> where the original throws
  a \<open>URIError\<close>, which the \<open>catch\<close> block turns into the empty result like every other
  exception of the \<open>try\<close> block. The result is the parsed array as it is.
\<close>

definition searchAddress ::
  "('c list \<Rightarrow> string option) \<Rightarrow> Network \<Rightarrow> 'c list \<Rightarrow> Json list \<times> string list" where
  "searchAddress encodeURIComponent fetch query =
     (if query = [] \<or> length query < 3 then ([], [])
      else case encodeURIComponent query of
             None \<Rightarrow> ([], [])
           | Some q \<Rightarrow>
               let url = ''https://nominatim.openstreetmap.org/search?format=json&q='' @ q
                         @ ''&accept_language=ru&limit=5&addressdetails=1''
               in (case fetch url of
                     NetworkError \<Rightarrow> []
                   | Response ok body \<Rightarrow>
                       if \<not> ok then []
                       else (case body of
                               InvalidJson \<Rightarrow> []
                             | Parsed data \<Rightarrow>
                                 (case data of JArray results \<Rightarrow> results | _ \<Rightarrow> [])),
                   [url]))"

text \<open>
  The number of characters of a text given by its UTF-16 code units, the reading of
  "characters" in which a pair of a high and a low surrogate is one character. The code
  does not use it: \<open>query.length\<close> is the number of code units.
\<close>

definition isHighSurrogate :: "nat \<Rightarrow> bool" where
  "isHighSurrogate u = (0xD800 \<le> u \<and> u \<le> 0xDBFF)"

definition isLowSurrogate :: "nat \<Rightarrow> bool" where
  "isLowSurrogate u = (0xDC00 \<le> u \<and> u \<le> 0xDFFF)"

fun characterCount :: "nat list \<Rightarrow> nat" where
  "characterCount [] = 0"
| "characterCount [u] = 1"
| "characterCount (u # v # us) =
     (if isHighSurrogate u \<and> isLowSurrogate v then 1 + characterCount us
      else 1 + characterCount (v # us))"

text \<open>
  Reading the property \<open>elevation\<close> of a parsed value: \<open>Inl TypeError\<close> on \<open>null\<close>,
  \<open>Inr None\<close> (\<open>undefined\<close>) on a value that has no such property.
\<close>

fun elevationOf :: "Json \<Rightarrow> JsError + Json option" where
  "elevationOf JNull = Inl TypeError"
| "elevationOf (JObject properties) = Inr (map_of properties ''elevation'')"
| "elevationOf _ = Inr None"

text \<open>The values that \<open>||\<close> keeps: everything but \<open>null\<close>, \<open>false\<close>, \<open>0\<close> and the empty
  string.\<close>

fun truthy :: "Json \<Rightarrow> bool" where
  "truthy JNull = False"
| "truthy (JBool b) = b"
| "truthy (JNumber x) = (x \<noteq> 0)"
| "truthy (JString s) = (s \<noteq> [])"
| "truthy (JArray _) = True"
| "truthy (JObject _) = True"

text \<open>\<open>xs.join(',')\<close>\<close>

fun joinComma :: "string list \<Rightarrow> string" where
  "joinComma [] = []"
| "joinComma [x] = x"
| "joinComma (x # y # zs) = x @ '','' @ joinComma (y # zs)"

record Location =
  lat :: real
  lon :: real

text \<open>
  \<open>getBatchAltitudes\<close>. The conversion of a number to text inside the address is a
  parameter. The result is the value the promise resolves to: \<open>new
  Array(locations.length).fill(null)\<close> on every failure, and otherwise \<open>data.elevation\<close>
  as the service sent it.
\<close>

definition getBatchAltitudes ::
  "(real \<Rightarrow> string) \<Rightarrow> Network \<Rightarrow> Location list \<Rightarrow> Json \<times> string list" where
  "getBatchAltitudes numberToString fetch locations =
     (if length locations = 0 then (JArray [], [])
      else
        let nulls = JArray (replicate (length locations) JNull);
            lats = joinComma (map (\<lambda>l. numberToString (lat l)) locations);
            lons = joinComma (map (\<lambda>l. numberToString (lon l)) locations);
            url = ''https://api.open-meteo.com/v1/elevation?latitude='' @ lats
                  @ ''&longitude='' @ lons
        in (case fetch url of
              NetworkError \<Rightarrow> nulls
            | Response ok body \<Rightarrow>
                if \<not> ok then nulls
                else (case body of
                        InvalidJson \<Rightarrow> nulls
                      | Parsed data \<Rightarrow>
                          (case elevationOf data of
                             Inl err \<Rightarrow> nulls
                           | Inr None \<Rightarrow> nulls
                           | Inr (Some elevation) \<Rightarrow>
                               if truthy elevation then elevation else nulls)),
            [url]))"

text \<open>The length of a result that is an array.\<close>

fun arrayLength :: "Json \<Rightarrow> nat option" where
  "arrayLength (JArray xs) = Some (length xs)"
| "arrayLength _ = None"

section \<open>AI analysis (geminiService.ts, App.handleAnalyze)\<close>

text \<open>
  The prompt is represented by the values that the template interpolates: the sector,
  the rotation with one decimal, and the map context when a centre is given (the centre
  with four decimals, and the zoom unless it is missing or zero).
\<close>

record Prompt =
  promptMountain :: Mountain
  promptRotation :: string
  promptLocation :: "(string \<times> string \<times> real option) option"

text \<open>
  What \<open>ai.models.generateContent\<close> does with a prompt: it throws an error with or
  without a message, or it returns a response with or without a text.
\<close>

datatype GenerateOutcome = GenerateThrows "string option" | GenerateReturns "string option"

text \<open>
  The two Russian texts of the function, the reply used when the response has no text
  and the message used when the error has none, are parameters.
\<close>

record Texts =
  noAnswerText :: string
  connectionErrorText :: string

text \<open>
  The statements of \<open>analyzeDirection\<close> between the check of the key and the call of the
  service: \<open>normalizedRotation\<close>, \<open>locationContext\<close> and \<open>prompt\<close>.
\<close>

definition buildPrompt ::
  "Mountain \<Rightarrow> real \<Rightarrow> (real \<times> real) option \<Rightarrow> real option \<Rightarrow> Prompt" where
  "buildPrompt mountain rotation mapCenter mapZoom =
     (let locationContext =
            (case mapCenter of
               None \<Rightarrow> None
             | Some (centerLat, centerLon) \<Rightarrow>
                 Some (toFixed 4 centerLat, toFixed 4 centerLon,
                       if mapZoom = Some 0 then None else mapZoom))
      in \<lparr>promptMountain = mountain,
          promptRotation = toFixed 1 (normalizedRotation rotation),
          promptLocation = locationContext\<rparr>)"

text \<open>
  \<open>analyzeDirection\<close>. \<open>apiKey\<close> is \<open>process.env.API_KEY\<close>. The result is \<open>Inl\<close> of the
  message of the error thrown, or \<open>Inr\<close> of the text returned, together with the prompts
  sent to the service.
\<close>

definition analyzeDirection ::
  "Texts \<Rightarrow> string option \<Rightarrow> (Prompt \<Rightarrow> GenerateOutcome) \<Rightarrow> Mountain \<Rightarrow> real
   \<Rightarrow> (real \<times> real) option \<Rightarrow> real option \<Rightarrow> (string + string) \<times> Prompt list" where
  "analyzeDirection texts apiKey generateContent mountain rotation mapCenter mapZoom =
     (if apiKey = None \<or> apiKey = Some []
      then (Inl ''API Key is missing. Please set the API_KEY environment variable.'', [])
      else
        let prompt = buildPrompt mountain rotation mapCenter mapZoom
        in (case generateContent prompt of
              GenerateReturns text \<Rightarrow>
                Inr (if text = None \<or> text = Some [] then noAnswerText texts else the text)
            | GenerateThrows message \<Rightarrow>
                Inl (if message = None \<or> message = Some []
                     then connectionErrorText texts else the message),
            [prompt]))"

text \<open>The interface \<open>AnalysisState\<close>.\<close>

record AnalysisState =
  isLoading :: bool
  result :: "string option"
  error :: "string option"

text \<open>
  \<open>handleAnalyze\<close>: nothing happens without a selected sector; otherwise the state after
  the call holds the text returned, or the message of the error thrown, which is always
  an \<open>Error\<close> object. The second component is the list of prompts sent.
\<close>

definition handleAnalyze ::
  "Texts \<Rightarrow> string option \<Rightarrow> (Prompt \<Rightarrow> GenerateOutcome) \<Rightarrow> Mountain option \<Rightarrow> bool \<Rightarrow> real
   \<Rightarrow> ((real \<times> real) \<times> real) option \<Rightarrow> AnalysisState option \<times> Prompt list" where
  "handleAnalyze texts apiKey generateContent selectedMountain useDeclination declination
     mapInstance =
     (case selectedMountain of
        None \<Rightarrow> (None, [])
      | Some mountain \<Rightarrow>
          (case analyzeDirection texts apiKey generateContent mountain
                  (normalizedTemplateRotation useDeclination declination)
                  (map_option fst mapInstance) (map_option snd mapInstance) of
             (Inr textResult, sent) \<Rightarrow>
               (Some \<lparr>isLoading = False, result = Some textResult, error = None\<rparr>, sent)
           | (Inl errorMessage, sent) \<Rightarrow>
               (Some \<lparr>isLoading = False, result = None, error = Some errorMessage\<rparr>, sent)))"

section \<open>Share link (App.handleOpenShare, the state initialisers of App)\<close>

text \<open>
  The query of an address as \<open>URLSearchParams\<close> holds it: the list of its pairs of a name
  and a value. Writing the address as text and reading it back is the platform's and
  gives the same pairs.
\<close>

type_synonym URLSearchParams = "(string \<times> string) list"

definition searchParams_has :: "URLSearchParams \<Rightarrow> string \<Rightarrow> bool" where
  "searchParams_has params name = (name \<in> fst ` set params)"

text \<open>\<open>get\<close> returns the value of the first pair with the name, \<open>None\<close> for \<open>null\<close>.\<close>

definition searchParams_get :: "URLSearchParams \<Rightarrow> string \<Rightarrow> string option" where
  "searchParams_get params name = map_of params name"

text \<open>
  \<open>set\<close> gives the first pair with the name the new value and removes the other ones,
  or appends a pair when there is none; \<open>delete\<close> removes every pair with the name.
\<close>

fun searchParams_set :: "string \<Rightarrow> string \<Rightarrow> URLSearchParams \<Rightarrow> URLSearchParams" where
  "searchParams_set name v [] = [(name, v)]"
| "searchParams_set name v (p # ps) =
     (if fst p = name then (name, v) # filter (\<lambda>q. fst q \<noteq> name) ps
      else p # searchParams_set name v ps)"

definition searchParams_delete :: "string \<Rightarrow> URLSearchParams \<Rightarrow> URLSearchParams" where
  "searchParams_delete name params = filter (\<lambda>q. fst q \<noteq> name) params"

text \<open>
  \<open>handleOpenShare\<close>, up to \<open>shareUrl\<close>: the query of the shared address. The first four
  arguments are the state of the application; \<open>initialMapState\<close> and \<open>mapInstance\<close> give
  the centre and the zoom, an integer; \<open>current\<close> is the query of
  \<open>window.location.href\<close>.
\<close>

definition handleOpenShare ::
  "real \<Rightarrow> real \<Rightarrow> bool \<Rightarrow> Mountain option \<Rightarrow> (real \<times> real) \<times> int
   \<Rightarrow> ((real \<times> real) \<times> int) option \<Rightarrow> URLSearchParams \<Rightarrow> URLSearchParams" where
  "handleOpenShare facadeRotation declination useDeclination selectedMountain initialMapState
     mapInstance current =
     (let ((lat, lon), zoom) = (case mapInstance of None \<Rightarrow> initialMapState | Some view \<Rightarrow> view);
          url = searchParams_set ''lat'' (toFixed 6 lat) current;
          url = searchParams_set ''lon'' (toFixed 6 lon) url;
          url = searchParams_set ''z'' (toString zoom) url;
          url = searchParams_set ''rot'' (toFixed 2 facadeRotation) url;
          url = searchParams_set ''dec'' (toFixed 2 declination) url;
          url = searchParams_set ''useDec'' (if useDeclination then ''true'' else ''false'') url
      in case selectedMountain of
           Some mountain \<Rightarrow> searchParams_set ''m'' (id_str mountain) url
         | None \<Rightarrow> searchParams_delete ''m'' url)"

text \<open>
  The initialisers of the state, from the query of the address the application is
  opened with. A number is \<open>None\<close> when \<open>parseFloat\<close> or \<open>parseInt\<close> gives \<open>NaN\<close>.
\<close>

definition initialFacadeRotation :: "URLSearchParams \<Rightarrow> real option" where
  "initialFacadeRotation params =
     (if searchParams_has params ''rot''
      then parseFloat (the (searchParams_get params ''rot'')) else Some 0)"

definition initialDeclination :: "URLSearchParams \<Rightarrow> real option" where
  "initialDeclination params =
     (if searchParams_has params ''dec''
      then parseFloat (the (searchParams_get params ''dec'')) else Some 12.0)"

definition initialUseDeclination :: "URLSearchParams \<Rightarrow> bool" where
  "initialUseDeclination params =
     (if searchParams_has params ''useDec''
      then searchParams_get params ''useDec'' = Some ''true'' else True)"

definition initialMapState :: "URLSearchParams \<Rightarrow> (real option \<times> real option) \<times> int option" where
  "initialMapState params =
     (let lat = (if searchParams_has params ''lat''
                 then parseFloat (the (searchParams_get params ''lat'')) else Some 55.7539);
          lon = (if searchParams_has params ''lon''
                 then parseFloat (the (searchParams_get params ''lon'')) else Some 37.6208);
          zoom = (if searchParams_has params ''z''
                  then parseInt (the (searchParams_get params ''z'')) else Some 17)
      in ((lat, lon), zoom))"

definition initialSelectedMountain :: "URLSearchParams \<Rightarrow> Mountain option" where
  "initialSelectedMountain params =
     (case searchParams_get params ''m'' of
        None \<Rightarrow> None
      | Some ident \<Rightarrow>
          if ident \<noteq> [] then find (\<lambda>m. id_str m = ident) MOUNTAINS else None)"

section \<open>Properties of the remainder\<close>

lemma js_rem_nonneg:
  assumes "0 \<le> x"
  shows "0 \<le> js_rem x 360 \<and> js_rem x 360 < 360"
proof -
  have t: "js_trunc (x / 360) = \<lfloor>x / 360\<rfloor>"
    using assms by (simp add: js_trunc_def)
  have lo: "of_int \<lfloor>x / 360\<rfloor> * 360 \<le> x"
    by (rule floor_divide_lower) simp
  have hi: "x < (of_int \<lfloor>x / 360\<rfloor> + 1) * 360"
    by (rule floor_divide_upper) simp
  show ?thesis
    unfolding js_rem_def t using lo hi by (simp add: algebra_simps)
qed

lemma js_rem_negative:
  assumes "x < 0"
  shows "- 360 < js_rem x 360 \<and> js_rem x 360 \<le> 0"
proof -
  have t: "js_trunc (x / 360) = \<lceil>x / 360\<rceil>"
    using assms by (simp add: js_trunc_def ceiling_def)
  have lo: "(of_int \<lceil>x / 360\<rceil> - 1) * 360 < x"
    by (rule ceiling_divide_lower) simp
  have hi: "x \<le> of_int \<lceil>x / 360\<rceil> * 360"
    by (rule ceiling_divide_upper) simp
  show ?thesis
    unfolding js_rem_def t using lo hi by (simp add: algebra_simps)
qed

lemma js_rem_above_minus_turn: "- 360 < js_rem x 360"
  using js_rem_nonneg [of x] js_rem_negative [of x] by (cases "0 \<le> x") auto

lemma js_rem_first_turn:
  assumes "0 \<le> x" and "x < 360"
  shows "js_rem x 360 = x"
proof -
  have "\<lfloor>x / 360\<rfloor> = 0" using assms by (simp add: floor_eq_iff)
  then show ?thesis using assms by (simp add: js_rem_def js_trunc_def)
qed

lemma js_rem_second_turn:
  assumes "360 \<le> x" and "x < 720"
  shows "js_rem x 360 = x - 360"
proof -
  have "\<lfloor>x / 360\<rfloor> = 1" using assms by (simp add: floor_eq_iff)
  then show ?thesis using assms by (simp add: js_rem_def js_trunc_def)
qed

lemma js_rem_negative_first_turn:
  assumes "- 360 < x" and "x < 0"
  shows "js_rem x 360 = x"
proof -
  have "\<lfloor>- x / 360\<rfloor> = 0" using assms by (simp add: floor_eq_iff)
  then show ?thesis using assms by (simp add: js_rem_def js_trunc_def)
qed

section \<open>Rounding to double precision\<close>

text \<open>
  The nearest integer and the exponent of a number, and from them the properties of
  \<open>fl\<close>: it is exact on every number of 53 significant bits, it keeps every bound that
  is such a number, it is the identity on its own results, and its error is at most half
  a unit in the last place.
\<close>

lemma roundEven_of_int: "roundEven (of_int k) = k"
  by (simp add: roundEven_def)

lemma roundEven_le:
  assumes "r \<le> of_int k"
  shows "roundEven r \<le> k"
proof (cases "r = of_int k")
  case True
  then show ?thesis by (simp add: roundEven_of_int)
next
  case False
  then have "r < of_int k" using assms by simp
  then have "\<lfloor>r\<rfloor> < k" by (simp add: floor_less_iff)
  moreover have "roundEven r \<le> \<lfloor>r\<rfloor> + 1" by (simp add: roundEven_def Let_def)
  ultimately show ?thesis by linarith
qed

lemma roundEven_ge:
  assumes "of_int k \<le> r"
  shows "k \<le> roundEven r"
proof -
  have "k \<le> \<lfloor>r\<rfloor>" using assms by (simp add: le_floor_iff)
  moreover have "\<lfloor>r\<rfloor> \<le> roundEven r" by (simp add: roundEven_def Let_def)
  ultimately show ?thesis by linarith
qed


lemma bitlen_pos:
  assumes "0 < n"
  shows "1 \<le> bitlen n"
  using assms bitlen_eq_zero_iff [of n] bitlen_nonneg [of n] by linarith

lemma binade_bounds:
  assumes "y \<noteq> 0"
  shows "2 powi binade y \<le> \<bar>y\<bar> \<and> \<bar>y\<bar> < 2 powi (binade y + 1)"
proof (cases "1 \<le> \<bar>y\<bar>")
  case True
  define n where "n = \<lfloor>\<bar>y\<bar>\<rfloor>"
  have n: "0 < n" using True by (simp add: n_def)
  have b: "binade y = bitlen n - 1" using True by (simp add: binade_def n_def)
  have p: "1 \<le> bitlen n" using n by (rule bitlen_pos)
  have lo: "(2::int) ^ nat (bitlen n - 1) \<le> n" and hi: "n < 2 ^ nat (bitlen n)"
    using bitlen_bounds [OF n] by simp_all
  have "(2::real) powi (bitlen n - 1) = 2 ^ nat (bitlen n - 1)"
    using p by (simp add: power_int_nonneg_exp)
  also have "\<dots> = of_int (2 ^ nat (bitlen n - 1))" by simp
  also have "\<dots> \<le> of_int n" using lo by (simp only: of_int_le_iff)
  also have "\<dots> \<le> \<bar>y\<bar>" by (simp add: n_def)
  finally have 1: "2 powi binade y \<le> \<bar>y\<bar>" unfolding b .
  have "n + 1 \<le> 2 ^ nat (bitlen n)" using hi by simp
  then have "of_int (n + 1) \<le> (of_int (2 ^ nat (bitlen n)) :: real)"
    by (simp only: of_int_le_iff)
  moreover have "\<bar>y\<bar> < of_int (n + 1)" by (simp add: n_def)
  ultimately have "\<bar>y\<bar> < 2 ^ nat (bitlen n)" by simp
  moreover have "(2::real) powi (bitlen n) = 2 ^ nat (bitlen n)"
    using p by (simp add: power_int_nonneg_exp)
  ultimately have 2: "\<bar>y\<bar> < 2 powi (binade y + 1)" by (simp add: b)
  from 1 2 show ?thesis ..
next
  case False
  define z where "z = 1 / \<bar>y\<bar>"
  define c where "c = \<lceil>z\<rceil>"
  define B where "B = bitlen (c - 1)"
  have y: "0 < \<bar>y\<bar>" "\<bar>y\<bar> < 1" using assms False by simp_all
  then have z1: "1 < z" by (simp add: z_def)
  then have c2: "2 \<le> c" unfolding c_def by linarith
  then have n: "0 < c - 1" by simp
  have b: "binade y = - B" using False by (simp add: binade_def B_def c_def z_def)
  have p: "1 \<le> B" unfolding B_def using n by (rule bitlen_pos)
  have lo: "(2::int) ^ nat (B - 1) \<le> c - 1" and hi: "c - 1 < 2 ^ nat B"
    using bitlen_bounds [OF n] by (simp_all add: B_def)
  have "z \<le> of_int c" unfolding c_def by linarith
  also have "of_int c \<le> (of_int (2 ^ nat B) :: real)"
    using hi by (simp only: of_int_le_iff)
  finally have zB: "z \<le> 2 ^ nat B" by simp
  have "(of_int (2 ^ nat (B - 1)) :: real) \<le> of_int (c - 1)"
    using lo by (simp only: of_int_le_iff)
  moreover have "of_int (c - 1) < z" unfolding c_def by linarith
  ultimately have Bz: "2 ^ nat (B - 1) < z" by simp
  have "(2::real) powi (- B) = 1 / 2 ^ nat B"
    using p by (simp add: power_int_minus_divide power_int_nonneg_exp)
  also have "\<dots> \<le> \<bar>y\<bar>"
    using zB y by (simp add: z_def field_simps)
  finally have 1: "2 powi binade y \<le> \<bar>y\<bar>" by (simp add: b)
  have "\<bar>y\<bar> < 1 / 2 ^ nat (B - 1)"
    using Bz y by (simp add: z_def field_simps)
  also have "\<dots> = (2::real) powi (- (B - 1))"
  proof -
    have "(2::real) powi (B - 1) = 2 ^ nat (B - 1)"
      using p by (simp add: power_int_nonneg_exp)
    then show ?thesis by (simp only: power_int_minus_divide)
  qed
  finally have 2: "\<bar>y\<bar> < 2 powi (binade y + 1)" by (simp add: b)
  from 1 2 show ?thesis ..
qed

lemma pow2_less_cancel:
  assumes "(2::real) powi a < 2 powi b"
  shows "a < b"
proof (rule ccontr)
  assume "\<not> a < b"
  then have "b \<le> a" by simp
  then have "(2::real) powi b \<le> 2 powi a" by (rule power_int_increasing) simp
  then show False using assms by simp
qed

lemma binade_le:
  assumes "y \<noteq> 0" and "\<bar>y\<bar> < 2 powi (e + 1)"
  shows "binade y \<le> e"
proof -
  have "(2::real) powi binade y < 2 powi (e + 1)"
    using binade_bounds [OF assms(1)] assms(2) by linarith
  then have "binade y < e + 1" by (rule pow2_less_cancel)
  then show ?thesis by simp
qed

lemma pow2_nonzero:
  assumes "2 powi e \<le> \<bar>y\<bar>"
  shows "y \<noteq> (0::real)"
proof
  assume "y = 0"
  moreover have "(0::real) < 2 powi e" by (rule zero_less_power_int) simp
  ultimately show False using assms by linarith
qed

lemma binade_ge:
  assumes "2 powi e \<le> \<bar>y\<bar>"
  shows "e \<le> binade y"
proof -
  have "y \<noteq> 0" using assms by (rule pow2_nonzero)
  then have "(2::real) powi e < 2 powi (binade y + 1)"
    using binade_bounds [of y] assms by linarith
  then have "e < binade y + 1" by (rule pow2_less_cancel)
  then show ?thesis by simp
qed

lemma binade_eq:
  assumes "2 powi e \<le> \<bar>y\<bar>" and "\<bar>y\<bar> < 2 powi (e + 1)"
  shows "binade y = e"
proof -
  have "y \<noteq> 0" using assms(1) by (rule pow2_nonzero)
  then show ?thesis using binade_le [OF _ assms(2)] binade_ge [OF assms(1)] by simp
qed

lemma fl_zero: "fl 0 = 0"
  using roundEven_of_int [of 0] by (simp add: fl_def)

lemma scaled_int:
  assumes "q \<le> t"
  shows "of_int K * 2 powi t / 2 powi q = (of_int (K * 2 ^ nat (t - q)) :: real)"
proof -
  have "(2::real) powi t = 2 powi q * 2 powi (t - q)"
    by (simp flip: power_int_add)
  moreover have "(2::real) powi (t - q) = 2 ^ nat (t - q)"
    using assms by (simp add: power_int_nonneg_exp)
  ultimately show ?thesis by simp
qed

lemma fl_unscale: "of_int M = y / 2 powi q \<Longrightarrow> of_int M * 2 powi q = (y::real)"
  by simp

lemma fl_exact:
  assumes "y = of_int K * 2 powi t" and "binade y - 52 \<le> t"
  shows "fl y = y"
proof -
  define q where "q = binade y - 52"
  have r: "y / 2 powi q = of_int (K * 2 ^ nat (t - q))"
    unfolding assms(1) using assms(2) by (intro scaled_int) (simp add: q_def assms(1))
  have "fl y = of_int (roundEven (y / 2 powi q)) * 2 powi q"
    by (simp add: fl_def q_def)
  also have "\<dots> = of_int (K * 2 ^ nat (t - q)) * 2 powi q"
    by (simp only: r roundEven_of_int)
  also have "\<dots> = y" using r by (intro fl_unscale) simp
  finally show ?thesis .
qed

lemma fl_le:
  assumes "y \<le> of_int C * 2 powi t" and "binade y - 52 \<le> t"
  shows "fl y \<le> of_int C * 2 powi t"
proof -
  define q where "q = binade y - 52"
  define M where "M = C * 2 ^ nat (t - q)"
  have p: "(0::real) < 2 powi q" by (rule zero_less_power_int) simp
  have c: "of_int C * 2 powi t / 2 powi q = (of_int M :: real)"
    unfolding M_def using assms(2) by (intro scaled_int) (simp add: q_def)
  have "y / 2 powi q \<le> of_int C * 2 powi t / 2 powi q"
    using assms(1) p by (simp add: divide_right_mono)
  then have "roundEven (y / 2 powi q) \<le> M" unfolding c by (rule roundEven_le)
  then have "(of_int (roundEven (y / 2 powi q)) :: real) \<le> of_int M"
    by (simp only: of_int_le_iff)
  then have m: "(of_int (roundEven (y / 2 powi q)) :: real) * 2 powi q \<le> of_int M * 2 powi q"
    using p by (intro mult_right_mono) simp_all
  have "fl y = of_int (roundEven (y / 2 powi q)) * 2 powi q"
    by (simp add: fl_def q_def)
  also note m
  also have "(of_int M :: real) * 2 powi q = of_int C * 2 powi t"
    using c by (intro fl_unscale) simp
  finally show ?thesis .
qed

lemma fl_ge:
  assumes "of_int C * 2 powi t \<le> y" and "binade y - 52 \<le> t"
  shows "of_int C * 2 powi t \<le> fl y"
proof -
  define q where "q = binade y - 52"
  define M where "M = C * 2 ^ nat (t - q)"
  have p: "(0::real) < 2 powi q" by (rule zero_less_power_int) simp
  have c: "of_int C * 2 powi t / 2 powi q = (of_int M :: real)"
    unfolding M_def using assms(2) by (intro scaled_int) (simp add: q_def)
  have "of_int C * 2 powi t / 2 powi q \<le> y / 2 powi q"
    using assms(1) p by (simp add: divide_right_mono)
  then have "M \<le> roundEven (y / 2 powi q)" unfolding c by (rule roundEven_ge)
  then have "(of_int M :: real) \<le> of_int (roundEven (y / 2 powi q))"
    by (simp only: of_int_le_iff)
  then have m: "(of_int M :: real) * 2 powi q \<le> of_int (roundEven (y / 2 powi q)) * 2 powi q"
    using p by (intro mult_right_mono) simp_all
  have "of_int C * 2 powi t = (of_int M :: real) * 2 powi q"
    using c by (intro fl_unscale [symmetric]) simp
  also note m
  also have "of_int (roundEven (y / 2 powi q)) * 2 powi q = fl y"
    by (simp add: fl_def q_def)
  finally show ?thesis .
qed

lemma quantum_le:
  assumes "y \<noteq> 0" and "\<bar>y\<bar> < 2 powi (t + 53)"
  shows "binade y - 52 \<le> t"
  using binade_le [OF assms(1), of "t + 52"] assms(2) by (simp add: add.commute)

lemma fl_exact_below:
  assumes "y = of_int K * 2 powi t" and "\<bar>y\<bar> < 2 powi (t + 53)"
  shows "fl y = y"
proof (cases "y = 0")
  case True
  then show ?thesis by (simp add: fl_zero)
next
  case False
  from assms(1) quantum_le [OF False assms(2)] show ?thesis by (rule fl_exact)
qed

lemma fl_le_below:
  assumes "y \<le> of_int C * 2 powi t" and "\<bar>y\<bar> < 2 powi (t + 53)"
  shows "fl y \<le> of_int C * 2 powi t"
proof (cases "y = 0")
  case True
  then show ?thesis using assms(1) by (simp add: fl_zero)
next
  case False
  from assms(1) quantum_le [OF False assms(2)] show ?thesis by (rule fl_le)
qed

lemma fl_ge_below:
  assumes "of_int C * 2 powi t \<le> y" and "\<bar>y\<bar> < 2 powi (t + 53)"
  shows "of_int C * 2 powi t \<le> fl y"
proof (cases "y = 0")
  case True
  then show ?thesis using assms(1) by (simp add: fl_zero)
next
  case False
  from assms(1) quantum_le [OF False assms(2)] show ?thesis by (rule fl_ge)
qed

lemma fl_nonneg:
  assumes "0 \<le> y"
  shows "0 \<le> fl y"
  using fl_ge [of 0 "binade y - 52" y] assms by simp

lemma fl_nonpos:
  assumes "y \<le> 0"
  shows "fl y \<le> 0"
  using fl_le [of y 0 "binade y - 52"] assms by simp

lemma pow2_split: "(2::real) powi b = of_int (2 ^ 52) * 2 powi (b - 52)"
proof -
  have a: "(of_int (2 ^ 52) :: real) = 2 powi 52" by simp
  have "(2::real) powi (52 + (b - 52)) = 2 powi 52 * 2 powi (b - 52)"
    by (rule power_int_add) simp
  then have "(2::real) powi b = 2 powi 52 * 2 powi (b - 52)" by simp
  then show ?thesis unfolding a .
qed

lemma pow2_split_next: "(2::real) powi (b + 1) = of_int (2 ^ 53) * 2 powi (b - 52)"
proof -
  have a: "(of_int (2 ^ 53) :: real) = 2 powi 53" by simp
  have "(2::real) powi (53 + (b - 52)) = 2 powi 53 * 2 powi (b - 52)"
    by (rule power_int_add) simp
  moreover have "53 + (b - 52) = b + 1" by simp
  ultimately have "(2::real) powi (b + 1) = 2 powi 53 * 2 powi (b - 52)" by simp
  then show ?thesis unfolding a .
qed

lemma fl_pos_bounds:
  assumes "0 < y"
  shows "2 powi binade y \<le> fl y" and "fl y \<le> 2 powi (binade y + 1)"
proof -
  have b: "2 powi binade y \<le> y" "y < 2 powi (binade y + 1)"
    using binade_bounds [of y] assms by simp_all
  have "of_int (2 ^ 52) * 2 powi (binade y - 52) \<le> y"
    using b(1) by (simp only: pow2_split [symmetric])
  then have "of_int (2 ^ 52) * 2 powi (binade y - 52) \<le> fl y"
    by (rule fl_ge) simp
  then show "2 powi binade y \<le> fl y" by (simp only: pow2_split [symmetric])
  have "y \<le> of_int (2 ^ 53) * 2 powi (binade y - 52)"
    using b(2) by (simp only: pow2_split_next [symmetric])
  then have "fl y \<le> of_int (2 ^ 53) * 2 powi (binade y - 52)"
    by (rule fl_le) simp
  then show "fl y \<le> 2 powi (binade y + 1)" by (simp only: pow2_split_next [symmetric])
qed



lemma roundEven_down:
  assumes "of_int k \<le> r" and "r < of_int k + 1 / 2"
  shows "roundEven r = k"
proof -
  have "\<lfloor>r\<rfloor> = k" using assms by linarith
  then show ?thesis using assms by (simp add: roundEven_def Let_def)
qed

lemma roundEven_up:
  assumes "of_int k - 1 / 2 < r" and "r \<le> of_int k"
  shows "roundEven r = k"
proof (cases "r = of_int k")
  case True
  then show ?thesis by (simp add: roundEven_of_int)
next
  case False
  then have "\<lfloor>r\<rfloor> = k - 1" using assms by linarith
  then show ?thesis using assms False by (simp add: roundEven_def Let_def)
qed



lemma fl_in_binade:
  assumes "2 powi e \<le> \<bar>y\<bar>" and "\<bar>y\<bar> < 2 powi (e + 1)"
  shows "fl y = of_int (roundEven (y / 2 powi (e - 52))) * 2 powi (e - 52)"
  by (simp add: fl_def binade_eq [OF assms])

lemma fl_round_down:
  assumes "2 powi e \<le> \<bar>y\<bar>" and "\<bar>y\<bar> < 2 powi (e + 1)"
    and "of_int k \<le> y / 2 powi (e - 52)" and "y / 2 powi (e - 52) < of_int k + 1 / 2"
  shows "fl y = of_int k * 2 powi (e - 52)"
  by (simp only: fl_in_binade [OF assms(1,2)] roundEven_down [OF assms(3,4)])

lemma fl_round_up:
  assumes "2 powi e \<le> \<bar>y\<bar>" and "\<bar>y\<bar> < 2 powi (e + 1)"
    and "of_int k - 1 / 2 < y / 2 powi (e - 52)" and "y / 2 powi (e - 52) \<le> of_int k"
  shows "fl y = of_int k * 2 powi (e - 52)"
  by (simp only: fl_in_binade [OF assms(1,2)] roundEven_up [OF assms(3,4)])

lemma fl_fl:
  assumes "0 \<le> y"
  shows "fl (fl y) = fl y"
proof (cases "y = 0")
  case True
  then show ?thesis by (simp add: fl_zero)
next
  case False
  then have pos: "0 < y" using assms by simp
  define b where "b = binade y"
  have lo: "2 powi b \<le> fl y" and hi: "fl y \<le> 2 powi (b + 1)"
    using fl_pos_bounds [OF pos] by (simp_all add: b_def)
  have p: "(0::real) < 2 powi b" by (rule zero_less_power_int) simp
  have a: "\<bar>fl y\<bar> = fl y" using p lo by linarith
  show ?thesis
  proof (cases "fl y < 2 powi (b + 1)")
    case True
    have "binade (fl y) = b" using lo True by (intro binade_eq) (simp_all only: a)
    then have "binade (fl y) - 52 \<le> b - 52" by simp
    moreover have "fl y = of_int (roundEven (y / 2 powi (b - 52))) * 2 powi (b - 52)"
      by (simp add: fl_def b_def)
    ultimately show ?thesis by (intro fl_exact [of _ _ "b - 52"])
  next
    case False
    then have eq: "fl y = 2 powi (b + 1)" using hi by simp
    have "(2::real) powi (b + 1) < 2 powi (b + 1 + 1)"
      by (rule power_int_strict_increasing) simp_all
    then have "binade (fl y) = b + 1"
      unfolding eq using p by (intro binade_eq) simp_all
    then have "binade (fl y) - 52 \<le> b + 1 - 52" by simp
    moreover have "fl y = of_int (2 ^ 52) * 2 powi (b + 1 - 52)"
      unfolding eq by (rule pow2_split)
    ultimately show ?thesis by (intro fl_exact [of _ _ "b + 1 - 52"])
  qed
qed

lemma fl_360: "fl 360 = 360"
  using fl_exact_below [of 360 360 0] by simp

lemma fl_half_integer: "\<exists>j::int. fl (of_int k / 2) = of_int j / 2"
proof (cases "binade (of_int k / 2) - 52 \<le> - 1")
  case True
  have "fl (of_int k / 2) = of_int k / 2"
    using True by (intro fl_exact [of _ k "- 1"]) simp_all
  then show ?thesis ..
next
  case False
  define q where "q = binade (of_int k / 2) - 52"
  define R where "R = roundEven (of_int k / 2 / 2 powi q)"
  have q: "0 \<le> q" using False by (simp add: q_def)
  then have "(2::real) powi q = of_int (2 ^ nat q)" by (simp add: power_int_nonneg_exp)
  then have "fl (of_int k / 2) = of_int R * of_int (2 ^ nat q)"
    by (simp add: fl_def q_def R_def)
  also have "\<dots> = of_int (2 * (R * 2 ^ nat q)) / 2" by simp
  finally show ?thesis ..
qed






section \<open>Angle normalisation\<close>

lemma rounded_rem_range:
  "0 \<le> js_rem (fl (js_rem x 360 + 360)) 360 \<and> js_rem (fl (js_rem x 360 + 360)) 360 < 360"
proof -
  have "0 \<le> js_rem x 360 + 360"
    using js_rem_above_minus_turn [of x] by simp
  then have "0 \<le> fl (js_rem x 360 + 360)" by (rule fl_nonneg)
  then show ?thesis by (rule js_rem_nonneg)
qed

lemma js_rem_720: "js_rem 720 360 = 0" and js_rem_360: "js_rem 360 360 = 0"
  by (simp_all add: js_rem_def js_trunc_def)

lemma normalizedRotation_fixed_nonneg:
  assumes "0 \<le> x"
  shows "normalizedRotation (normalizedRotation x) = normalizedRotation x"
proof -
  define m where "m = js_rem x 360"
  define z where "z = fl (m + 360)"
  have m: "0 \<le> m" "m < 360" using js_rem_nonneg [OF assms] by (simp_all add: m_def)
  have "of_int 360 * 2 powi 0 \<le> fl (m + 360)"
    using m by (intro fl_ge_below) simp_all
  then have lo: "360 \<le> z" by (simp add: z_def)
  have "fl (m + 360) \<le> of_int 720 * 2 powi 0"
    using m by (intro fl_le_below) simp_all
  then have hi: "z \<le> 720" by (simp add: z_def)
  have fixed: "fl z = z" unfolding z_def using m by (intro fl_fl) simp
  have n: "normalizedRotation x = js_rem z 360"
    by (simp add: normalizedRotation_def m_def z_def)
  show ?thesis
  proof (cases "z < 720")
    case True
    have r: "js_rem z 360 = z - 360" using lo True by (rule js_rem_second_turn)
    have "js_rem (z - 360) 360 = z - 360" using lo True by (intro js_rem_first_turn) simp_all
    then have "normalizedRotation (z - 360) = js_rem (fl z) 360"
      by (simp add: normalizedRotation_def)
    then show ?thesis by (simp add: n r fixed)
  next
    case False
    then have z: "z = 720" using hi by simp
    have "normalizedRotation 0 = 0"
      by (simp add: normalizedRotation_def js_rem_first_turn fl_360 js_rem_360)
    then show ?thesis by (simp add: n z js_rem_720)
  qed
qed

lemma fl_half_365: "fl 365.5 = 365.5"
  by (rule fl_exact_below [of _ 731 "- 1"]) simp_all

text \<open>
  Claim C8 as stated, with \<open>normalize(normalize(x)) = normalize(x)\<close> for every finite
  \<open>x\<close>, fails on the code for negative inputs: the sum \<open>(x % 360) + 360\<close> is rounded, and
  a second application adds the turn to a larger number and rounds again. For the double
  \<open>x = -200 + 2^-45\<close> the first application gives \<open>160 + 2^-45\<close> and the second gives
  \<open>160\<close>.
\<close>

theorem normalizedRotation_not_idempotent:
  "fl (- 200 + 1 / 2 ^ 45) = - 200 + 1 / 2 ^ 45
   \<and> normalizedRotation (- 200 + 1 / 2 ^ 45) = 160 + 1 / 2 ^ 45
   \<and> normalizedRotation (normalizedRotation (- 200 + 1 / 2 ^ 45)) = 160
   \<and> normalizedRotation (normalizedRotation (- 200 + 1 / 2 ^ 45))
       \<noteq> normalizedRotation (- 200 + 1 / 2 ^ 45)"
proof -
  have d: "fl (- 200 + 1 / 2 ^ 45) = - 200 + 1 / 2 ^ 45"
    by (rule fl_exact_below [of _ "- (200 * 2 ^ 45) + 1" "- 45"]) simp_all
  have s1: "fl (160 + 1 / 2 ^ 45) = 160 + 1 / 2 ^ 45"
    by (rule fl_exact_below [of _ "160 * 2 ^ 45 + 1" "- 45"]) simp_all
  have "fl (520 + 1 / 2 ^ 45) = of_int (520 * 2 ^ 43) * 2 powi (9 - 52)"
    by (rule fl_round_down) simp_all
  then have s2: "fl (520 + 1 / 2 ^ 45) = 520" by simp
  have r1: "js_rem (- 200 + 1 / 2 ^ 45) 360 = - 200 + 1 / 2 ^ 45"
    by (rule js_rem_negative_first_turn) simp_all
  have r2: "js_rem (160 + 1 / 2 ^ 45) 360 = 160 + 1 / 2 ^ 45"
    by (rule js_rem_first_turn) simp_all
  have r3: "js_rem 520 360 = 160"
    using js_rem_second_turn [of 520] by simp
  have e1: "- 200 + 1 / 2 ^ 45 + 360 = (160 + 1 / 2 ^ 45 :: real)" by simp
  have e2: "160 + 1 / 2 ^ 45 + 360 = (520 + 1 / 2 ^ 45 :: real)" by simp
  have n1: "normalizedRotation (- 200 + 1 / 2 ^ 45) = 160 + 1 / 2 ^ 45"
    by (simp only: normalizedRotation_def r1 e1 s1 r2)
  have n2: "normalizedRotation (160 + 1 / 2 ^ 45) = 160"
    by (simp only: normalizedRotation_def r2 e2 s2 r3)
  have n3: "normalizedRotation (normalizedRotation (- 200 + 1 / 2 ^ 45)) = 160"
    by (simp only: n1 n2)
  have ne: "(160::real) \<noteq> 160 + 1 / 2 ^ 45" by simp
  have n4: "normalizedRotation (normalizedRotation (- 200 + 1 / 2 ^ 45))
       \<noteq> normalizedRotation (- 200 + 1 / 2 ^ 45)"
    using ne by (simp only: n1 n2) simp
  from d n1 n3 n4 show ?thesis by (intro conjI)
qed

text \<open>
  Claim C8, as the code has it. The normalisation \<open>((x % 360) + 360) % 360\<close>, as
  \<open>analyzeDirection\<close> applies it to the rotation and the application applies it to the
  template rotation, returns a value in \<open>[0, 360)\<close> for every input, negative or beyond a
  full turn. Applying it again changes nothing when the input is not negative, and
  changes nothing from the second application on for every input.
\<close>

theorem normalizedRotation_range_stable:
  "0 \<le> normalizedRotation x \<and> normalizedRotation x < 360
   \<and> (0 \<le> x \<longrightarrow> normalizedRotation (normalizedRotation x) = normalizedRotation x)
   \<and> normalizedRotation (normalizedRotation (normalizedRotation x))
       = normalizedRotation (normalizedRotation x)
   \<and> 0 \<le> normalizedTemplateRotation u d \<and> normalizedTemplateRotation u d < 360
   \<and> normalizedRotation (normalizedRotation (normalizedTemplateRotation u d))
       = normalizedRotation (normalizedTemplateRotation u d)"
proof -
  have r: "0 \<le> normalizedRotation y \<and> normalizedRotation y < 360" for y
    unfolding normalizedRotation_def by (rule rounded_rem_range)
  have t: "0 \<le> normalizedTemplateRotation u d \<and> normalizedTemplateRotation u d < 360"
    unfolding normalizedTemplateRotation_def by (rule rounded_rem_range)
  have s: "normalizedRotation (normalizedRotation y) = normalizedRotation y" if "0 \<le> y" for y
    using that by (rule normalizedRotation_fixed_nonneg)
  from r [of x] t s [of x] s [of "normalizedRotation x"] s [of "normalizedTemplateRotation u d"]
  show ?thesis by simp
qed

theorem normalizedRotation_range_stable_witness:
  "normalizedRotation 725.5 = 5.5
   \<and> normalizedRotation (normalizedRotation 725.5) = normalizedRotation 725.5"
proof -
  have a: "js_rem 725.5 360 = 5.5" by (simp add: js_rem_def js_trunc_def)
  have b: "js_rem 365.5 360 = 5.5" by (simp add: js_rem_def js_trunc_def)
  have c: "5.5 + 360 = (365.5::real)" by simp
  have v: "normalizedRotation 725.5 = 5.5"
    by (simp only: normalizedRotation_def a c fl_half_365 b)
  have "(0::real) \<le> 725.5" by simp
  with normalizedRotation_range_stable [of "725.5"] v show ?thesis by blast
qed

section \<open>The facade-rotation setter\<close>

lemma handleFacadeRotationChange_cases:
  "handleFacadeRotationChange v =
     (if 360 \<le> v then (if fl (v - 360) < 0 then fl (fl (v - 360) + 360) else fl (v - 360))
      else if v < 0 then fl (v + 360) else v)"
  by (simp add: handleFacadeRotationChange_def Let_def)


lemma handleFacadeRotationChange_inside:
  assumes "0 \<le> v" and "v \<le> 360"
  shows "0 \<le> handleFacadeRotationChange v \<and> handleFacadeRotationChange v < 360"
proof (cases "v = 360")
  case True
  then show ?thesis by (simp add: handleFacadeRotationChange_cases fl_zero)
next
  case False
  then show ?thesis using assms by (simp add: handleFacadeRotationChange_cases)
qed




lemma handleFacadeRotationChange_half_steps:
  assumes "v = of_int k / 2"
  shows "\<exists>j::int. handleFacadeRotationChange v = of_int j / 2"
proof -
  consider "360 \<le> v" | "v < 360" "v < 0" | "v < 360" "0 \<le> v" by linarith
  then show ?thesis
  proof cases
    case 1
    then have "0 \<le> fl (v - 360)" by (intro fl_nonneg) simp
    then have h: "handleFacadeRotationChange v = fl (v - 360)"
      using 1 by (simp add: handleFacadeRotationChange_cases)
    have e: "v - 360 = of_int (k - 720) / 2" unfolding assms by simp
    show ?thesis using fl_half_integer [of "k - 720"] by (simp only: h e)
  next
    case 2
    then have h: "handleFacadeRotationChange v = fl (v + 360)"
      by (simp add: handleFacadeRotationChange_cases)
    have e: "v + 360 = of_int (k + 720) / 2" unfolding assms by simp
    show ?thesis using fl_half_integer [of "k + 720"] by (simp only: h e)
  next
    case 3
    then have "handleFacadeRotationChange v = of_int k / 2"
      using assms by (simp add: handleFacadeRotationChange_cases)
    then show ?thesis ..
  qed
qed



text \<open>
  The voice command stores what the setter makes of the number in the transcript, and
  leaves the rotation alone when there is none.
\<close>

lemma handleGlobalVoiceCommand_stores:
  "numberMatch transcript = Some text \<Longrightarrow> parseFloat text = Some degree \<Longrightarrow>
     handleGlobalVoiceCommand facadeRotation transcript = handleFacadeRotationChange (fl degree)"
  "numberMatch transcript = None \<Longrightarrow>
     handleGlobalVoiceCommand facadeRotation transcript = facadeRotation"
  by (simp_all add: handleGlobalVoiceCommand_def)



section \<open>Pointer position to bearing\<close>


















section \<open>Release of a drag\<close>

text \<open>
  The listeners of a drag, the release handler among them, are registered only when the
  overlay has its \<open>onFacadeChange\<close> property and is interactive.
\<close>

lemma drag_started_with_callback:
  assumes "AddWindowListeners \<in> set (fst (handleFacadeDragStart ov e))"
  shows "onFacadeChange ov \<and> isInteractive ov"
proof (rule ccontr)
  assume "\<not> (onFacadeChange ov \<and> isInteractive ov)"
  then have "handleFacadeDragStart ov e = ([], None)"
    by (auto simp: handleFacadeDragStart_def)
  then show False using assms by simp
qed

text \<open>
  Claim C4. On release the handler reports \<open>Math.round(rotation * 2) / 2\<close> for the rotation
  current at that moment, whatever the last live value was; the reported value and the
  value the application stores after its wrap are exact multiples of one half, and the
  stored value lies in \<open>[0, 360)\<close> when the rotation at release did.
\<close>

theorem handleUp_snaps_to_half_degree:
  assumes "onFacadeChange ov"
    and "snapped = Math_round (facadeRotationRef ov * 2) / 2"
  shows "reported (handleUp ov) = [snapped]
    \<and> applyEffects lastLive (handleUp ov) = handleFacadeRotationChange snapped
    \<and> (\<exists>k::int. snapped = of_int k / 2)
    \<and> (\<exists>j::int. applyEffects lastLive (handleUp ov) = of_int j / 2)
    \<and> (0 \<le> facadeRotationRef ov \<and> facadeRotationRef ov < 360 \<longrightarrow>
          0 \<le> applyEffects lastLive (handleUp ov) \<and> applyEffects lastLive (handleUp ov) < 360)"
proof -
  have rep: "reported (handleUp ov) = [snapped]"
    unfolding assms(2) using assms(1) by (simp add: handleUp_def Let_def)
  have st: "applyEffects lastLive (handleUp ov) = handleFacadeRotationChange snapped"
    unfolding assms(2) using assms(1) by (simp add: handleUp_def Let_def)
  have k: "snapped = of_int \<lfloor>facadeRotationRef ov * 2 + 1 / 2\<rfloor> / 2"
    using assms(2) by (simp add: Math_round_def)
  then have half: "\<exists>k::int. snapped = of_int k / 2" ..
  have stored: "\<exists>j::int. handleFacadeRotationChange snapped = of_int j / 2"
    using k by (rule handleFacadeRotationChange_half_steps)
  have inside: "0 \<le> handleFacadeRotationChange snapped \<and> handleFacadeRotationChange snapped < 360"
    if "0 \<le> facadeRotationRef ov" and "facadeRotationRef ov < 360"
  proof -
    have "0 \<le> \<lfloor>facadeRotationRef ov * 2 + 1 / 2\<rfloor>" using that(1) by simp
    then have lo: "(0::real) \<le> of_int \<lfloor>facadeRotationRef ov * 2 + 1 / 2\<rfloor>"
      by (simp only: of_int_0_le_iff)
    have "\<lfloor>facadeRotationRef ov * 2 + 1 / 2\<rfloor> \<le> 720"
      using that(2) by (simp add: floor_le_iff)
    then have hi: "of_int \<lfloor>facadeRotationRef ov * 2 + 1 / 2\<rfloor> \<le> (720::real)"
      by (metis of_int_le_iff of_int_numeral)
    have "0 \<le> snapped \<and> snapped \<le> 360" unfolding k using lo hi by simp
    then show ?thesis using handleFacadeRotationChange_inside [of snapped] by simp
  qed
  from rep st half stored inside show ?thesis by simp
qed

theorem handleUp_snaps_to_half_degree_witness:
  "reported (handleUp \<lparr>containerRef = None, onFacadeChange = True, isInteractive = True,
      facadeRotationRef = 359.8, navigatorVibrate = False\<rparr>) = [360]
   \<and> applyEffects 359.8 (handleUp \<lparr>containerRef = None, onFacadeChange = True,
      isInteractive = True, facadeRotationRef = 359.8, navigatorVibrate = False\<rparr>) = 0"
proof -
  let ?ov = "\<lparr>containerRef = None, onFacadeChange = True, isInteractive = True,
      facadeRotationRef = 359.8, navigatorVibrate = False\<rparr>"
  have f: "onFacadeChange ?ov" by simp
  have s: "(360::real) = Math_round (facadeRotationRef ?ov * 2) / 2"
    by (simp add: Math_round_def)
  have z: "handleFacadeRotationChange 360 = 0"
    by (simp add: handleFacadeRotationChange_cases fl_zero)
  from handleUp_snaps_to_half_degree [OF f s, of "359.8"] z show ?thesis by simp
qed

section \<open>The invariant of the facade rotation\<close>




section \<open>The sector table partitions the circle\<close>

lemma MOUNTAINS_shared_boundaries:
  assumes "i < 24"
  shows "endDegree (MOUNTAINS ! i) = startDegree (MOUNTAINS ! ((i + 1) mod 24))"
proof -
  have len: "length MOUNTAINS = 24" by (simp add: MOUNTAINS_def)
  have m: "map endDegree MOUNTAINS = map startDegree (rotate1 MOUNTAINS)"
    by (simp add: MOUNTAINS_def)
  have "endDegree (MOUNTAINS ! i) = map endDegree MOUNTAINS ! i"
    using assms len by simp
  also have "\<dots> = startDegree (rotate1 MOUNTAINS ! i)"
    using assms len by (simp add: m)
  also have "\<dots> = startDegree (MOUNTAINS ! ((i + 1) mod 24))"
    using assms len by (simp add: nth_rotate1)
  finally show ?thesis .
qed

lemma containing_sector:
  assumes "0 \<le> a" and "a < 360"
  shows "\<exists>m. filter (\<lambda>m. containsAngle m a) MOUNTAINS = [m]"
proof -
  have s0: ?thesis if "a < 7.5"
    using assms that by (simp add: MOUNTAINS_def containsAngle_def)
  have s1: ?thesis if "a < 22.5"
  proof (cases "a < 7.5")
    case False
    with that show ?thesis by (simp add: MOUNTAINS_def containsAngle_def)
  qed (rule s0)
  have s2: ?thesis if "a < 37.5"
  proof (cases "a < 22.5")
    case False
    with that show ?thesis by (simp add: MOUNTAINS_def containsAngle_def)
  qed (rule s1)
  have s3: ?thesis if "a < 52.5"
  proof (cases "a < 37.5")
    case False
    with that show ?thesis by (simp add: MOUNTAINS_def containsAngle_def)
  qed (rule s2)
  have s4: ?thesis if "a < 67.5"
  proof (cases "a < 52.5")
    case False
    with that show ?thesis by (simp add: MOUNTAINS_def containsAngle_def)
  qed (rule s3)
  have s5: ?thesis if "a < 82.5"
  proof (cases "a < 67.5")
    case False
    with that show ?thesis by (simp add: MOUNTAINS_def containsAngle_def)
  qed (rule s4)
  have s6: ?thesis if "a < 97.5"
  proof (cases "a < 82.5")
    case False
    with that show ?thesis by (simp add: MOUNTAINS_def containsAngle_def)
  qed (rule s5)
  have s7: ?thesis if "a < 112.5"
  proof (cases "a < 97.5")
    case False
    with that show ?thesis by (simp add: MOUNTAINS_def containsAngle_def)
  qed (rule s6)
  have s8: ?thesis if "a < 127.5"
  proof (cases "a < 112.5")
    case False
    with that show ?thesis by (simp add: MOUNTAINS_def containsAngle_def)
  qed (rule s7)
  have s9: ?thesis if "a < 142.5"
  proof (cases "a < 127.5")
    case False
    with that show ?thesis by (simp add: MOUNTAINS_def containsAngle_def)
  qed (rule s8)
  have s10: ?thesis if "a < 157.5"
  proof (cases "a < 142.5")
    case False
    with that show ?thesis by (simp add: MOUNTAINS_def containsAngle_def)
  qed (rule s9)
  have s11: ?thesis if "a < 172.5"
  proof (cases "a < 157.5")
    case False
    with that show ?thesis by (simp add: MOUNTAINS_def containsAngle_def)
  qed (rule s10)
  have s12: ?thesis if "a < 187.5"
  proof (cases "a < 172.5")
    case False
    with that show ?thesis by (simp add: MOUNTAINS_def containsAngle_def)
  qed (rule s11)
  have s13: ?thesis if "a < 202.5"
  proof (cases "a < 187.5")
    case False
    with that show ?thesis by (simp add: MOUNTAINS_def containsAngle_def)
  qed (rule s12)
  have s14: ?thesis if "a < 217.5"
  proof (cases "a < 202.5")
    case False
    with that show ?thesis by (simp add: MOUNTAINS_def containsAngle_def)
  qed (rule s13)
  have s15: ?thesis if "a < 232.5"
  proof (cases "a < 217.5")
    case False
    with that show ?thesis by (simp add: MOUNTAINS_def containsAngle_def)
  qed (rule s14)
  have s16: ?thesis if "a < 247.5"
  proof (cases "a < 232.5")
    case False
    with that show ?thesis by (simp add: MOUNTAINS_def containsAngle_def)
  qed (rule s15)
  have s17: ?thesis if "a < 262.5"
  proof (cases "a < 247.5")
    case False
    with that show ?thesis by (simp add: MOUNTAINS_def containsAngle_def)
  qed (rule s16)
  have s18: ?thesis if "a < 277.5"
  proof (cases "a < 262.5")
    case False
    with that show ?thesis by (simp add: MOUNTAINS_def containsAngle_def)
  qed (rule s17)
  have s19: ?thesis if "a < 292.5"
  proof (cases "a < 277.5")
    case False
    with that show ?thesis by (simp add: MOUNTAINS_def containsAngle_def)
  qed (rule s18)
  have s20: ?thesis if "a < 307.5"
  proof (cases "a < 292.5")
    case False
    with that show ?thesis by (simp add: MOUNTAINS_def containsAngle_def)
  qed (rule s19)
  have s21: ?thesis if "a < 322.5"
  proof (cases "a < 307.5")
    case False
    with that show ?thesis by (simp add: MOUNTAINS_def containsAngle_def)
  qed (rule s20)
  have s22: ?thesis if "a < 337.5"
  proof (cases "a < 322.5")
    case False
    with that show ?thesis by (simp add: MOUNTAINS_def containsAngle_def)
  qed (rule s21)
  have s23: ?thesis if "a < 352.5"
  proof (cases "a < 337.5")
    case False
    with that show ?thesis by (simp add: MOUNTAINS_def containsAngle_def)
  qed (rule s22)
  have s24: ?thesis if "a < 360"
  proof (cases "a < 352.5")
    case False
    with that show ?thesis by (simp add: MOUNTAINS_def containsAngle_def)
  qed (rule s23)
  from assms(2) show ?thesis by (rule s24)
qed

lemma unique_containing_sector:
  assumes "0 \<le> a" and "a < 360"
  shows "\<exists>!m. m \<in> set MOUNTAINS \<and> containsAngle m a"
proof -
  obtain m where f: "filter (\<lambda>m. containsAngle m a) MOUNTAINS = [m]"
    using containing_sector [OF assms] ..
  have "m' \<in> set MOUNTAINS \<and> containsAngle m' a \<longleftrightarrow> m' = m" for m'
  proof -
    have "m' \<in> set MOUNTAINS \<and> containsAngle m' a
      \<longleftrightarrow> m' \<in> set (filter (\<lambda>m. containsAngle m a) MOUNTAINS)"
      by simp
    then show ?thesis unfolding f by simp
  qed
  then show ?thesis by simp
qed

text \<open>
  Claim C1. The table has 24 sectors, each 15 degrees wide; exactly one of them, the one
  with direction code N2 from 352.5 to 7.5, ends numerically below its start; each
  sector ends where the next one starts, the last one where the first one starts; and
  every angle of \<open>[0, 360)\<close> lies in exactly one sector, the angle 0 in the sector N2.
\<close>

theorem MOUNTAINS_partition_circle:
  "length MOUNTAINS = 24
   \<and> (\<forall>m \<in> set MOUNTAINS. wrapAdjustedEnd m - startDegree m = 15)
   \<and> (\<exists>n2. filter (\<lambda>m. endDegree m < startDegree m) MOUNTAINS = [n2]
         \<and> direction n2 = ''N2'' \<and> startDegree n2 = 352.5 \<and> endDegree n2 = 7.5
         \<and> containsAngle n2 0 \<and> sectorAt 0 = Some n2)
   \<and> (\<forall>i < 24. endDegree (MOUNTAINS ! i) = startDegree (MOUNTAINS ! ((i + 1) mod 24)))
   \<and> (\<forall>a. 0 \<le> a \<and> a < 360 \<longrightarrow> (\<exists>!m. m \<in> set MOUNTAINS \<and> containsAngle m a))"
proof (intro conjI allI impI ballI)
  show "length MOUNTAINS = 24" by (simp add: MOUNTAINS_def)
next
  fix m assume "m \<in> set MOUNTAINS"
  then show "wrapAdjustedEnd m - startDegree m = 15"
    by (auto simp: MOUNTAINS_def wrapAdjustedEnd_def)
next
  show "\<exists>n2. filter (\<lambda>m. endDegree m < startDegree m) MOUNTAINS = [n2]
         \<and> direction n2 = ''N2'' \<and> startDegree n2 = 352.5 \<and> endDegree n2 = 7.5
         \<and> containsAngle n2 0 \<and> sectorAt 0 = Some n2"
    by (simp add: MOUNTAINS_def sectorAt_def containsAngle_def)
next
  fix i :: nat assume "i < 24"
  then show "endDegree (MOUNTAINS ! i) = startDegree (MOUNTAINS ! ((i + 1) mod 24))"
    by (rule MOUNTAINS_shared_boundaries)
next
  fix a :: real assume "0 \<le> a \<and> a < 360"
  then show "\<exists>!m. m \<in> set MOUNTAINS \<and> containsAngle m a"
    by (simp add: unique_containing_sector)
qed

theorem MOUNTAINS_partition_circle_witness:
  "wrapAdjustedEnd (MOUNTAINS ! 1) - startDegree (MOUNTAINS ! 1) = 15
   \<and> endDegree (MOUNTAINS ! 23) = startDegree (MOUNTAINS ! 0)
   \<and> (\<exists>!m. m \<in> set MOUNTAINS \<and> containsAngle m 0)
   \<and> (\<exists>!m. m \<in> set MOUNTAINS \<and> containsAngle m 359.9)"
proof -
  note p = MOUNTAINS_partition_circle
  have m: "MOUNTAINS ! 1 \<in> set MOUNTAINS" by (simp add: MOUNTAINS_def)
  from p have w: "\<forall>m \<in> set MOUNTAINS. wrapAdjustedEnd m - startDegree m = 15" by (elim conjE)
  from p have c: "\<forall>i < 24. endDegree (MOUNTAINS ! i) = startDegree (MOUNTAINS ! ((i + 1) mod 24))"
    by (elim conjE)
  from p have u: "\<forall>a. 0 \<le> a \<and> a < 360 \<longrightarrow> (\<exists>!m. m \<in> set MOUNTAINS \<and> containsAngle m a)"
    by (elim conjE)
  have 1: "wrapAdjustedEnd (MOUNTAINS ! 1) - startDegree (MOUNTAINS ! 1) = 15"
    using w m by (rule bspec)
  have 2: "endDegree (MOUNTAINS ! 23) = startDegree (MOUNTAINS ! 0)"
    using c [rule_format, of 23] by simp
  have 3: "\<exists>!m. m \<in> set MOUNTAINS \<and> containsAngle m 0"
    using u [rule_format, of 0] by simp
  have 4: "\<exists>!m. m \<in> set MOUNTAINS \<and> containsAngle m 359.9"
    using u [rule_format, of "359.9"] by simp
  from 1 2 3 4 show ?thesis by (intro conjI)
qed

section \<open>The arc midpoint\<close>

text \<open>
  Claim C2 as stated, with a normalised midpoint in \<open>[0, 360)\<close> that is 0 for the sector
  that wraps, fails on the code: the midpoint that the overlay and the application compute
  is not normalised, and for the sector N2 it is 360.
\<close>

theorem midDegree_wrap_sector_not_normalized:
  "direction (MOUNTAINS ! 1) = ''N2''
   \<and> startDegree (MOUNTAINS ! 1) = 352.5 \<and> endDegree (MOUNTAINS ! 1) = 7.5
   \<and> midDegree (MOUNTAINS ! 1) = 360
   \<and> \<not> midDegree (MOUNTAINS ! 1) < 360
   \<and> midDegree (MOUNTAINS ! 1) \<noteq> 0"
  by (simp add: MOUNTAINS_def midDegree_def wrapAdjustedEnd_def)

text \<open>
  Claim C2, as the code has it. For every sector the midpoint \<open>(s + e) / 2\<close>, with the end
  raised by 360 when it is below the start, lies strictly between the start and the
  raised end and in \<open>(0, 360]\<close>; for the sector that wraps it is 360, the direction of 0
  degrees and not of 180, and its normalisation is 0.
\<close>

theorem midDegree_within_sector:
  "(\<forall>m \<in> set MOUNTAINS.
      startDegree m < midDegree m \<and> midDegree m < wrapAdjustedEnd m
      \<and> 0 < midDegree m \<and> midDegree m \<le> 360
      \<and> (endDegree m < startDegree m \<longrightarrow>
            midDegree m = 360 \<and> midDegree m \<noteq> 180 \<and> normalizedRotation (midDegree m) = 0))"
proof
  fix m assume "m \<in> set MOUNTAINS"
  have z: "normalizedRotation 360 = 0"
    by (simp add: normalizedRotation_def js_rem_360 fl_360)
  from \<open>m \<in> set MOUNTAINS\<close>
  show "startDegree m < midDegree m \<and> midDegree m < wrapAdjustedEnd m
      \<and> 0 < midDegree m \<and> midDegree m \<le> 360
      \<and> (endDegree m < startDegree m \<longrightarrow>
            midDegree m = 360 \<and> midDegree m \<noteq> 180 \<and> normalizedRotation (midDegree m) = 0)"
    by (auto simp: MOUNTAINS_def midDegree_def wrapAdjustedEnd_def z)
qed

theorem midDegree_within_sector_witness:
  "startDegree (MOUNTAINS ! 1) < midDegree (MOUNTAINS ! 1)
   \<and> midDegree (MOUNTAINS ! 1) < wrapAdjustedEnd (MOUNTAINS ! 1)
   \<and> normalizedRotation (midDegree (MOUNTAINS ! 1)) = 0
   \<and> startDegree (MOUNTAINS ! 0) < midDegree (MOUNTAINS ! 0)
   \<and> midDegree (MOUNTAINS ! 0) < wrapAdjustedEnd (MOUNTAINS ! 0)
   \<and> midDegree (MOUNTAINS ! 0) \<le> 360"
proof -
  have m: "MOUNTAINS ! 1 \<in> set MOUNTAINS" and n: "MOUNTAINS ! 0 \<in> set MOUNTAINS"
    by (simp_all add: MOUNTAINS_def)
  have w: "endDegree (MOUNTAINS ! 1) < startDegree (MOUNTAINS ! 1)"
    by (simp add: MOUNTAINS_def)
  from midDegree_within_sector [rule_format, OF m] midDegree_within_sector [rule_format, OF n] w
  show ?thesis by blast
qed

section \<open>Address search\<close>

text \<open>
  Claim C7 as stated, for every query of fewer than three characters, fails on the code
  when a character takes two code units: the query of the two characters U+1F600 and
  \<open>a\<close> has three code units, so the request is made and its results are returned.
\<close>

theorem searchAddress_two_characters_fetches:
  "characterCount [0xD83D, 0xDE00, 0x61] = 2
   \<and> fst (searchAddress (\<lambda>query. Some ''%F0%9F%98%80a'')
          (\<lambda>url. Response True (Parsed (JArray [JString ''found''])))
          [0xD83D, 0xDE00, 0x61 :: nat]) = [JString ''found'']
   \<and> length (snd (searchAddress (\<lambda>query. Some ''%F0%9F%98%80a'')
          (\<lambda>url. Response True (Parsed (JArray [JString ''found''])))
          [0xD83D, 0xDE00, 0x61 :: nat])) = 1"
  by (simp add: searchAddress_def isHighSurrogate_def isLowSurrogate_def)

text \<open>
  Claim C7, as the code has it. A query of fewer than three UTF-16 code units (the
  \<open>length\<close> of the text), the empty one included, gives the empty result and no request
  is made; and for every query the result is empty unless the request is answered by an
  OK response whose body parses to an array, so a transport failure, a response that is
  not OK and a body that is not an array all give the empty result.
\<close>

theorem searchAddress_short_or_failed:
  "(length query < 3 \<longrightarrow> searchAddress encodeURIComponent fetch query = ([], []))
   \<and> ((\<forall>url results. fetch url \<noteq> Response True (Parsed (JArray results)))
        \<longrightarrow> fst (searchAddress encodeURIComponent fetch query) = [])"
proof (intro conjI impI)
  assume "length query < 3"
  then show "searchAddress encodeURIComponent fetch query = ([], [])"
    by (simp add: searchAddress_def)
next
  assume f: "\<forall>url results. fetch url \<noteq> Response True (Parsed (JArray results))"
  show "fst (searchAddress encodeURIComponent fetch query) = []"
    using f
    by (auto simp: searchAddress_def Let_def
          split: option.splits FetchOutcome.splits Body.splits Json.splits)
qed

theorem searchAddress_short_or_failed_witness:
  "searchAddress Some (\<lambda>url. Response True (Parsed (JArray [JNull]))) ''ab'' = ([], [])
   \<and> searchAddress Some (\<lambda>url. Response True (Parsed (JArray [JNull]))) [] = ([], [])
   \<and> fst (searchAddress Some (\<lambda>url. NetworkError) ''abc'') = []
   \<and> fst (searchAddress Some (\<lambda>url. Response False (Parsed (JArray [JNull]))) ''abc'') = []
   \<and> fst (searchAddress Some (\<lambda>url. Response True (Parsed (JObject []))) ''abc'') = []"
proof -
  note t = searchAddress_short_or_failed
  have 1: "searchAddress Some (\<lambda>url. Response True (Parsed (JArray [JNull]))) ''ab'' = ([], [])"
    using t [of "''ab''" Some "\<lambda>url. Response True (Parsed (JArray [JNull]))"] by simp
  have 2: "searchAddress Some (\<lambda>url. Response True (Parsed (JArray [JNull]))) [] = ([], [])"
    using t [of "[]" Some "\<lambda>url. Response True (Parsed (JArray [JNull]))"] by simp
  have 3: "fst (searchAddress Some (\<lambda>url. NetworkError) ''abc'') = []"
    using t [of "''abc''" Some "\<lambda>url. NetworkError"] by simp
  have 4: "fst (searchAddress Some (\<lambda>url. Response False (Parsed (JArray [JNull]))) ''abc'') = []"
    using t [of "''abc''" Some "\<lambda>url. Response False (Parsed (JArray [JNull]))"] by simp
  have 5: "fst (searchAddress Some (\<lambda>url. Response True (Parsed (JObject []))) ''abc'') = []"
    using t [of "''abc''" Some "\<lambda>url. Response True (Parsed (JObject []))"] by simp
  from 1 2 3 4 5 show ?thesis by (intro conjI)
qed

section \<open>Batch elevation lookup\<close>

text \<open>
  On every failure the lookup returns one \<open>null\<close> for each location: when the request is
  rejected, the response is not OK, the body is not JSON, or the body is not an object.
\<close>

lemma elevationOf_Some:
  assumes "elevationOf data = Inr (Some elevation)"
  shows "\<exists>properties. data = JObject properties"
  using assms by (cases data) simp_all

lemma getBatchAltitudes_failures:
  assumes "\<forall>url properties. fetch url \<noteq> Response True (Parsed (JObject properties))"
  shows "fst (getBatchAltitudes numberToString fetch locations)
         = JArray (replicate (length locations) JNull)"
  using assms
  by (auto simp: getBatchAltitudes_def Let_def dest!: elevationOf_Some
          split: option.splits FetchOutcome.splits Body.splits sum.splits)

text \<open>
  Claim C5, at the input where the code departs from it. For three locations and an OK
  response whose \<open>elevation\<close> array has two values, the lookup returns that array as it
  is: two entries, not three with \<open>null\<close> in the missing place.
\<close>

theorem getBatchAltitudes_short_response:
  "fst (getBatchAltitudes numberToString
      (\<lambda>url. Response True (Parsed (JObject [(''elevation'', JArray [JNumber 10, JNumber 20])])))
      [\<lparr>lat = 1, lon = 1\<rparr>, \<lparr>lat = 2, lon = 2\<rparr>, \<lparr>lat = 3, lon = 3\<rparr>])
    = JArray [JNumber 10, JNumber 20]
   \<and> arrayLength (fst (getBatchAltitudes numberToString
      (\<lambda>url. Response True (Parsed (JObject [(''elevation'', JArray [JNumber 10, JNumber 20])])))
      [\<lparr>lat = 1, lon = 1\<rparr>, \<lparr>lat = 2, lon = 2\<rparr>, \<lparr>lat = 3, lon = 3\<rparr>])) = Some 2"
  by (simp add: getBatchAltitudes_def Let_def)

section \<open>AI analysis without a credential\<close>

text \<open>
  Claim C9. Without the credential (no key, or an empty one) the analysis fails with the
  message about the missing key and no prompt is sent, and the handler shows that message
  in the error slot of the analysis state. The analysis fails exactly when the
  credential is missing or the call of the service throws, and at most one prompt is
  sent.
\<close>

theorem analyzeDirection_missing_credential:
  "(apiKey = None \<or> apiKey = Some [] \<longrightarrow>
      analyzeDirection texts apiKey generateContent mountain rotation mapCenter mapZoom
        = (Inl ''API Key is missing. Please set the API_KEY environment variable.'', [])
      \<and> handleAnalyze texts apiKey generateContent (Some mountain) useDeclination declination
            mapInstance
        = (Some \<lparr>isLoading = False, result = None,
                 error = Some ''API Key is missing. Please set the API_KEY environment variable.''\<rparr>,
           []))
   \<and> (isl (fst (analyzeDirection texts apiKey generateContent mountain rotation mapCenter mapZoom))
        \<longleftrightarrow> apiKey = None \<or> apiKey = Some []
            \<or> (\<exists>message. generateContent (buildPrompt mountain rotation mapCenter mapZoom)
                   = GenerateThrows message))
   \<and> length (snd (analyzeDirection texts apiKey generateContent mountain rotation mapCenter
                     mapZoom)) \<le> 1"
proof (intro conjI impI)
  assume k: "apiKey = None \<or> apiKey = Some []"
  then show a: "analyzeDirection texts apiKey generateContent mountain rotation mapCenter mapZoom
        = (Inl ''API Key is missing. Please set the API_KEY environment variable.'', [])"
    by (auto simp: analyzeDirection_def)
  from k show "handleAnalyze texts apiKey generateContent (Some mountain) useDeclination
      declination mapInstance
        = (Some \<lparr>isLoading = False, result = None,
                 error = Some ''API Key is missing. Please set the API_KEY environment variable.''\<rparr>,
           [])"
    by (auto simp: handleAnalyze_def analyzeDirection_def)
next
  show "isl (fst (analyzeDirection texts apiKey generateContent mountain rotation mapCenter mapZoom))
        \<longleftrightarrow> apiKey = None \<or> apiKey = Some []
            \<or> (\<exists>message. generateContent (buildPrompt mountain rotation mapCenter mapZoom)
                   = GenerateThrows message)"
    by (cases "generateContent (buildPrompt mountain rotation mapCenter mapZoom)")
       (auto simp: analyzeDirection_def Let_def)
next
  show "length (snd (analyzeDirection texts apiKey generateContent mountain rotation mapCenter
                     mapZoom)) \<le> 1"
    by (simp add: analyzeDirection_def Let_def)
qed

theorem analyzeDirection_missing_credential_witness:
  "analyzeDirection \<lparr>noAnswerText = ''no answer'', connectionErrorText = ''no connection''\<rparr>
      None (\<lambda>prompt. GenerateReturns (Some ''text'')) (MOUNTAINS ! 1) 12 None None
     = (Inl ''API Key is missing. Please set the API_KEY environment variable.'', [])
   \<and> isl (fst (analyzeDirection
         \<lparr>noAnswerText = ''no answer'', connectionErrorText = ''no connection''\<rparr>
         (Some ''key'') (\<lambda>prompt. GenerateThrows None) (MOUNTAINS ! 1) 12 None None))
   \<and> \<not> isl (fst (analyzeDirection
         \<lparr>noAnswerText = ''no answer'', connectionErrorText = ''no connection''\<rparr>
         (Some ''key'') (\<lambda>prompt. GenerateReturns (Some ''text'')) (MOUNTAINS ! 1) 12 None None))"
proof -
  let ?texts = "\<lparr>noAnswerText = ''no answer'', connectionErrorText = ''no connection''\<rparr>"
  note t = analyzeDirection_missing_credential
  have 1: "analyzeDirection ?texts
      None (\<lambda>prompt. GenerateReturns (Some ''text'')) (MOUNTAINS ! 1) 12 None None
     = (Inl ''API Key is missing. Please set the API_KEY environment variable.'', [])"
    using t [of None ?texts "\<lambda>prompt. GenerateReturns (Some ''text'')" "MOUNTAINS ! 1" 12 None None]
    by simp
  have 2: "isl (fst (analyzeDirection ?texts
         (Some ''key'') (\<lambda>prompt. GenerateThrows None) (MOUNTAINS ! 1) 12 None None))"
    using t [of "Some ''key''" ?texts "\<lambda>prompt. GenerateThrows None" "MOUNTAINS ! 1" 12 None None]
    by simp
  have 3: "\<not> isl (fst (analyzeDirection ?texts
         (Some ''key'') (\<lambda>prompt. GenerateReturns (Some ''text'')) (MOUNTAINS ! 1) 12 None None))"
    using t [of "Some ''key''" ?texts "\<lambda>prompt. GenerateReturns (Some ''text'')" "MOUNTAINS ! 1"
        12 None None]
    by simp
  from 1 2 3 show ?thesis by (intro conjI)
qed

section \<open>Writing a number and reading it back\<close>

lemma digitChar_table:
  "\<forall>d \<in> set [0..<10]. isDigit (digitChar d) \<and> digitValue (digitChar d) = d"
  by (simp add: upt_rec digitChar_def isDigit_def digitValue_def)

lemma digitChar_properties:
  assumes "d < 10"
  shows "isDigit (digitChar d)" and "digitValue (digitChar d) = d"
  using assms digitChar_table by simp_all

lemma not_isDigit:
  "\<not> isDigit (CHR ''-'')" "\<not> isDigit (CHR ''+'')" "\<not> isDigit (CHR ''.'')"
  "\<not> isDigit (CHR '' '')" "\<not> isDigit (CHR 0x09)" "\<not> isDigit (CHR 0x0A)"
  "\<not> isDigit (CHR 0x0B)" "\<not> isDigit (CHR 0x0C)" "\<not> isDigit (CHR 0x0D)"
  "\<not> isDigit (CHR 0xA0)"
  by (simp_all add: isDigit_def)

lemma isDigit_plain:
  assumes "isDigit c"
  shows "\<not> isWhiteSpace c" and "c \<noteq> CHR ''-''" and "c \<noteq> CHR ''+''" and "c \<noteq> CHR ''.''"
proof -
  show "\<not> isWhiteSpace c"
  proof
    assume "isWhiteSpace c"
    then consider "c = CHR '' ''" | "c = CHR 0x09" | "c = CHR 0x0A" | "c = CHR 0x0B"
      | "c = CHR 0x0C" | "c = CHR 0x0D" | "c = CHR 0xA0"
      unfolding isWhiteSpace_def by fastforce
    then show False using assms not_isDigit by cases simp_all
  qed
  show "c \<noteq> CHR ''-''" using assms not_isDigit(1) by blast
  show "c \<noteq> CHR ''+''" using assms not_isDigit(2) by blast
  show "c \<noteq> CHR ''.''" using assms not_isDigit(3) by blast
qed

lemma digitsOf_isDigit: "\<forall>c \<in> set (digitsOf n). isDigit c"
proof (induction n rule: digitsOf.induct)
  case (1 n)
  show ?case
  proof (cases "n < 10")
    case True
    then show ?thesis by (subst digitsOf.simps) (simp add: digitChar_properties)
  next
    case False
    then show ?thesis using 1 by (subst digitsOf.simps) (simp add: digitChar_properties)
  qed
qed

lemma digitsOf_nonempty: "digitsOf n \<noteq> []"
  by (subst digitsOf.simps) simp

lemma digitsValue_snoc: "digitsValue (ds @ [c]) = 10 * digitsValue ds + digitValue c"
  by (simp add: digitsValue_def)

lemma digitsValue_append:
  "digitsValue (a @ b) = digitsValue a * 10 ^ length b + digitsValue b"
proof (induction b rule: rev_induct)
  case Nil
  show ?case by (simp add: digitsValue_def)
next
  case (snoc c b)
  have "digitsValue (a @ b @ [c]) = 10 * digitsValue (a @ b) + digitValue c"
    using digitsValue_snoc [of "a @ b" c] by simp
  then show ?case by (simp add: snoc.IH digitsValue_snoc algebra_simps)
qed

lemma digitsValue_digitsOf: "digitsValue (digitsOf n) = n"
proof (induction n rule: digitsOf.induct)
  case (1 n)
  show ?case
  proof (cases "n < 10")
    case True
    then show ?thesis
      by (subst digitsOf.simps) (simp add: digitsValue_def digitChar_properties)
  next
    case False
    then have "digitsValue (digitsOf n) = 10 * digitsValue (digitsOf (n div 10)) + n mod 10"
      by (subst digitsOf.simps) (simp add: digitsValue_snoc digitChar_properties)
    then show ?thesis using 1 False by simp
  qed
qed

lemma digitsValue_zeros: "digitsValue (replicate k (CHR ''0'') @ m) = digitsValue m"
proof -
  have z: "digitValue (CHR ''0'') = 0" by (simp add: digitValue_def)
  have "digitsValue (replicate k (CHR ''0'')) = 0"
  proof (induction k)
    case 0
    show ?case by (simp add: digitsValue_def)
  next
    case (Suc k)
    have "replicate (Suc k) (CHR ''0'') = replicate k (CHR ''0'') @ [CHR ''0'']"
      by (simp add: replicate_append_same)
    then have "digitsValue (replicate (Suc k) (CHR ''0''))
        = 10 * digitsValue (replicate k (CHR ''0'')) + digitValue (CHR ''0'')"
      by (simp only: digitsValue_snoc)
    then show ?case using Suc z by simp
  qed
  then show ?thesis by (simp add: digitsValue_append)
qed

lemma readSign_digit:
  assumes "isDigit c"
  shows "readSign (dropWhile isWhiteSpace (c # s)) = (1, c # s)"
  using isDigit_plain [OF assms] by (simp add: readSign_def)

lemma readSign_minus:
  "readSign (dropWhile isWhiteSpace (CHR ''-'' # s)) = (- 1, s)"
  by (simp add: readSign_def isWhiteSpace_def)

lemma parse_fraction:
  assumes a: "a \<noteq> []" "\<forall>c \<in> set a. isDigit c" and b: "\<forall>c \<in> set b. isDigit c"
  shows "parseFloat (a @ ''.'' @ b) = Some (real (digitsValue (a @ b)) / 10 ^ length b)"
    and "parseFloat (''-'' @ a @ ''.'' @ b) = Some (- (real (digitsValue (a @ b)) / 10 ^ length b))"
proof -
  obtain c t where ct: "a = c # t" using a(1) by (cases a) auto
  then have c: "isDigit c" using a(2) by simp
  have tw: "takeWhile isDigit (a @ CHR ''.'' # b) = a"
    using a(2) not_isDigit(3) by (simp add: takeWhile_append2)
  have dw: "dropWhile isDigit (a @ CHR ''.'' # b) = CHR ''.'' # b"
    using a(2) not_isDigit(3) by (simp add: dropWhile_append2)
  have twb: "takeWhile isDigit b = b" using b by simp
  have v: "real (digitsValue a) + real (digitsValue b) / 10 ^ length b
      = real (digitsValue (a @ b)) / 10 ^ length b"
    by (simp add: digitsValue_append field_simps)
  have s1: "readSign (dropWhile isWhiteSpace (a @ ''.'' @ b)) = (1, a @ ''.'' @ b)"
    using readSign_digit [OF c, of "t @ ''.'' @ b"] by (simp add: ct)
  show "parseFloat (a @ ''.'' @ b) = Some (real (digitsValue (a @ b)) / 10 ^ length b)"
    unfolding parseFloat_def s1 using a(1) by (simp add: tw dw twb v Let_def)
  have s2: "readSign (dropWhile isWhiteSpace (''-'' @ a @ ''.'' @ b)) = (- 1, a @ ''.'' @ b)"
    using readSign_minus [of "a @ ''.'' @ b"] by simp
  show "parseFloat (''-'' @ a @ ''.'' @ b) = Some (- (real (digitsValue (a @ b)) / 10 ^ length b))"
    unfolding parseFloat_def s2 using a(1) by (simp add: tw dw twb v Let_def)
qed

lemma isDigit_zero: "isDigit (CHR ''0'')"
  by (simp add: isDigit_def)

lemma toFixed_shape:
  assumes "0 < f"
  obtains a b where "toFixed f x = (if x < 0 then ''-'' else []) @ a @ ''.'' @ b"
    and "a \<noteq> []" and "\<forall>c \<in> set a. isDigit c" and "\<forall>c \<in> set b. isDigit c"
    and "length b = f" and "digitsValue (a @ b) = nearest f x"
proof -
  define n where "n = nearest f x"
  define m where "m = digitsOf n"
  define k where "k = length m"
  define m' where "m' = (if k \<le> f then replicate (f + 1 - k) (CHR ''0'') @ m else m)"
  define k' where "k' = (if k \<le> f then f + 1 else k)"
  have absx: "(if x < 0 then - x else x) = \<bar>x\<bar>" by simp
  have len: "length m' = k'" by (simp add: m'_def k'_def k_def)
  have big: "f < k'" by (simp add: k'_def)
  have dig: "\<forall>c \<in> set m'. isDigit c"
    using digitsOf_isDigit [of n] isDigit_zero by (auto simp: m'_def m_def)
  have val: "digitsValue m' = n"
    by (simp add: m'_def m_def digitsValue_zeros digitsValue_digitsOf)
  have shape: "toFixed f x
      = (if x < 0 then ''-'' else []) @ take (k' - f) m' @ ''.'' @ drop (k' - f) m'"
    using assms unfolding toFixed_def Let_def absx m'_def k'_def k_def m_def n_def nearest_def
    by simp
  show ?thesis
  proof (rule that [of "take (k' - f) m'" "drop (k' - f) m'"])
    show "toFixed f x
      = (if x < 0 then ''-'' else []) @ take (k' - f) m' @ ''.'' @ drop (k' - f) m'"
      by (rule shape)
    show "take (k' - f) m' \<noteq> []" using big len by auto
    show "\<forall>c \<in> set (take (k' - f) m'). isDigit c" using dig by (auto dest: in_set_takeD)
    show "\<forall>c \<in> set (drop (k' - f) m'). isDigit c" using dig by (auto dest: in_set_dropD)
    show "length (drop (k' - f) m') = f" using big len by simp
    show "digitsValue (take (k' - f) m' @ drop (k' - f) m') = nearest f x"
      using val by (simp add: n_def)
  qed
qed

lemma parseFloat_toFixed:
  assumes "0 < f"
  shows "parseFloat (toFixed f x)
         = Some ((if x < 0 then - 1 else 1) * real (nearest f x) / 10 ^ f)"
proof -
  obtain a b where t: "toFixed f x = (if x < 0 then ''-'' else []) @ a @ ''.'' @ b"
    and a: "a \<noteq> []" "\<forall>c \<in> set a. isDigit c" and b: "\<forall>c \<in> set b. isDigit c"
    and l: "length b = f" and v: "digitsValue (a @ b) = nearest f x"
    using toFixed_shape [OF assms, of x] by blast
  show ?thesis
  proof (cases "x < 0")
    case True
    then show ?thesis using parse_fraction(2) [OF a b] t l v by simp
  next
    case False
    then show ?thesis using parse_fraction(1) [OF a b] t l v by simp
  qed
qed

lemma nearest_close: "\<bar>real (nearest f x) / 10 ^ f - \<bar>x\<bar>\<bar> \<le> 1 / (2 * 10 ^ f)"
proof -
  define y where "y = \<bar>x\<bar> * 10 ^ f"
  have y0: "0 \<le> y" by (simp add: y_def)
  then have "0 \<le> \<lfloor>y + 1 / 2\<rfloor>" by simp
  then have r: "real (nearest f x) = of_int \<lfloor>y + 1 / 2\<rfloor>"
    by (simp add: nearest_def y_def)
  have "\<bar>of_int \<lfloor>y + 1 / 2\<rfloor> - y\<bar> \<le> 1 / 2" by linarith
  then have d: "\<bar>real (nearest f x) - y\<bar> \<le> 1 / 2" by (simp only: r)
  have p: "(0::real) < 10 ^ f" by simp
  have "real (nearest f x) / 10 ^ f - \<bar>x\<bar> = (real (nearest f x) - y) / 10 ^ f"
    by (simp add: y_def field_simps)
  then have "\<bar>real (nearest f x) / 10 ^ f - \<bar>x\<bar>\<bar> = \<bar>real (nearest f x) - y\<bar> / 10 ^ f"
    by simp
  also have "\<dots> \<le> (1 / 2) / 10 ^ f"
    using d p by (intro divide_right_mono) simp_all
  finally show ?thesis by simp
qed

lemma toFixed_round_trip:
  assumes "0 < f"
  shows "\<exists>r. parseFloat (toFixed f x) = Some r \<and> \<bar>r - x\<bar> \<le> 1 / (2 * 10 ^ f)"
proof (cases "x < 0")
  case True
  have "\<bar>- (real (nearest f x) / 10 ^ f) - x\<bar> = \<bar>real (nearest f x) / 10 ^ f - \<bar>x\<bar>\<bar>"
    using True by simp
  then show ?thesis
    using True nearest_close [of f x] by (simp add: parseFloat_toFixed [OF assms])
next
  case False
  then have "\<bar>real (nearest f x) / 10 ^ f - x\<bar> = \<bar>real (nearest f x) / 10 ^ f - \<bar>x\<bar>\<bar>"
    by simp
  then show ?thesis
    using False nearest_close [of f x] by (simp add: parseFloat_toFixed [OF assms])
qed

section \<open>The query of the share link\<close>

lemma get_filter_other:
  "searchParams_get (filter (\<lambda>q. fst q \<noteq> name) params) other
   = (if other = name then None else searchParams_get params other)"
  unfolding searchParams_get_def by (induction params) auto

lemma get_set:
  "searchParams_get (searchParams_set name v params) other
   = (if other = name then Some v else searchParams_get params other)"
proof (induction params)
  case Nil
  show ?case by (simp add: searchParams_get_def)
next
  case (Cons p ps)
  show ?case
  proof (cases "fst p = name")
    case True
    have "searchParams_get ((name, v) # filter (\<lambda>q. fst q \<noteq> name) ps) other
        = (if other = name then Some v else searchParams_get (p # ps) other)"
      using True get_filter_other [of name ps other]
      by (cases p) (auto simp: searchParams_get_def)
    then show ?thesis using True by simp
  next
    case False
    then show ?thesis using Cons by (cases p) (auto simp: searchParams_get_def)
  qed
qed

lemma get_delete:
  "searchParams_get (searchParams_delete name params) other
   = (if other = name then None else searchParams_get params other)"
  unfolding searchParams_delete_def by (rule get_filter_other)

lemma has_get: "searchParams_has params name \<longleftrightarrow> searchParams_get params name \<noteq> None"
  by (simp add: searchParams_has_def searchParams_get_def map_of_eq_None_iff)

lemma share_values:
  assumes "url = handleOpenShare facadeRotation declination useDeclination selectedMountain
                   initialMap mapInstance current"
  shows "searchParams_get url ''rot'' = Some (toFixed 2 facadeRotation)"
    and "searchParams_get url ''dec'' = Some (toFixed 2 declination)"
    and "searchParams_get url ''useDec'' = Some (if useDeclination then ''true'' else ''false'')"
    and "searchParams_get url ''m'' = map_option id_str selectedMountain"
  unfolding assms handleOpenShare_def Let_def
  by (simp_all add: get_set get_delete split: option.splits prod.splits)

lemma MOUNTAINS_ids: "map id_str MOUNTAINS = [''n1'', ''n2'', ''n3'', ''ne1'', ''ne2'', ''ne3'', ''e1'', ''e2'', ''e3'',
  ''se1'', ''se2'', ''se3'', ''s1'', ''s2'', ''s3'', ''sw1'', ''sw2'', ''sw3'', ''w1'', ''w2'', ''w3'',
  ''nw1'', ''nw2'', ''nw3'']"
  by (simp add: MOUNTAINS_def)

lemma MOUNTAINS_distinct_ids: "distinct (map id_str MOUNTAINS)"
  unfolding MOUNTAINS_ids by code_simp

lemma MOUNTAINS_ids_nonempty: "[] \<notin> set (map id_str MOUNTAINS)"
  unfolding MOUNTAINS_ids by simp

lemma find_distinct_key:
  assumes "distinct (map f xs)" and "m \<in> set xs"
  shows "find (\<lambda>m'. f m' = f m) xs = Some m"
  using assms by (induction xs) (auto simp: image_iff)

text \<open>
  Claim C6. For a facade rotation \<open>R\<close> in \<open>[0, 360)\<close>, the query that \<open>handleOpenShare\<close>
  builds holds \<open>R\<close> with two decimals under \<open>rot\<close>, and the initialisers of the
  application read from that query a facade rotation within 0.01 of \<open>R\<close>, a declination
  within 0.01 of the declination shared, the same \<open>useDeclination\<close> flag and the same
  selected sector; without a selected sector the query has no \<open>m\<close>. The selected sector
  is an entry of the table, as everywhere in the application.
\<close>

theorem share_link_round_trip:
  assumes "0 \<le> R" and "R < 360"
    and "selectedMountain = None \<or> (\<exists>m. m \<in> set MOUNTAINS \<and> selectedMountain = Some m)"
    and "url = handleOpenShare R declination useDeclination selectedMountain
                 initialMap mapInstance current"
  shows "searchParams_get url ''rot'' = Some (toFixed 2 R)
    \<and> (\<exists>r. initialFacadeRotation url = Some r \<and> \<bar>r - R\<bar> < 0.01)
    \<and> (\<exists>d. initialDeclination url = Some d \<and> \<bar>d - declination\<bar> < 0.01)
    \<and> initialUseDeclination url = useDeclination
    \<and> initialSelectedMountain url = selectedMountain
    \<and> (selectedMountain = None \<longrightarrow> \<not> searchParams_has url ''m'')"
proof -
  note v = share_values [OF assms(4)]
  have close: "\<exists>r. parseFloat (toFixed 2 x) = Some r \<and> \<bar>r - x\<bar> < 0.01" for x
  proof -
    obtain r where "parseFloat (toFixed 2 x) = Some r" and "\<bar>r - x\<bar> \<le> 1 / (2 * 10 ^ 2)"
      using toFixed_round_trip [of 2 x] by auto
    then show ?thesis by (intro exI [of _ r]) simp
  qed
  have rot: "\<exists>r. initialFacadeRotation url = Some r \<and> \<bar>r - R\<bar> < 0.01"
    using close [of R] by (simp add: initialFacadeRotation_def has_get v)
  have dec: "\<exists>d. initialDeclination url = Some d \<and> \<bar>d - declination\<bar> < 0.01"
    using close [of declination] by (simp add: initialDeclination_def has_get v)
  have use: "initialUseDeclination url = useDeclination"
    by (simp add: initialUseDeclination_def has_get v)
  have sel: "initialSelectedMountain url = selectedMountain"
  proof (cases selectedMountain)
    case None
    then show ?thesis by (simp add: initialSelectedMountain_def v)
  next
    case (Some m)
    then have m: "m \<in> set MOUNTAINS" using assms(3) by simp
    then have "id_str m \<noteq> []" using MOUNTAINS_ids_nonempty by force
    moreover have "find (\<lambda>m'. id_str m' = id_str m) MOUNTAINS = Some m"
      using MOUNTAINS_distinct_ids m by (rule find_distinct_key)
    ultimately show ?thesis using Some by (simp add: initialSelectedMountain_def v)
  qed
  have none: "selectedMountain = None \<longrightarrow> \<not> searchParams_has url ''m''"
    by (simp add: has_get v)
  from v(1) rot dec use sel none show ?thesis by (intro conjI)
qed

theorem share_link_round_trip_witness:
  "searchParams_get
     (handleOpenShare 123.456 (- 7.5) False (Some (MOUNTAINS ! 1)) ((55.7539, 37.6208), 17) None
        [(''rot'', ''1''), (''m'', ''x''), (''rot'', ''2'')]) ''rot'' = Some ''123.46''
   \<and> (\<exists>r. initialFacadeRotation
          (handleOpenShare 123.456 (- 7.5) False (Some (MOUNTAINS ! 1)) ((55.7539, 37.6208), 17)
             None [(''rot'', ''1''), (''m'', ''x''), (''rot'', ''2'')]) = Some r
        \<and> \<bar>r - 123.456\<bar> < 0.01)
   \<and> initialSelectedMountain
         (handleOpenShare 123.456 (- 7.5) False (Some (MOUNTAINS ! 1)) ((55.7539, 37.6208), 17)
            None [(''rot'', ''1''), (''m'', ''x''), (''rot'', ''2'')]) = Some (MOUNTAINS ! 1)"
proof -
  have a: "(0::real) \<le> 123.456" and b: "(123.456::real) < 360" by simp_all
  have "MOUNTAINS ! 1 \<in> set MOUNTAINS" by (simp add: MOUNTAINS_def)
  then have c: "Some (MOUNTAINS ! 1) = None
      \<or> (\<exists>m. m \<in> set MOUNTAINS \<and> Some (MOUNTAINS ! 1) = Some m)"
    by simp
  have t: "toFixed 2 123.456 = ''123.46''"
    by (simp add: toFixed_def Let_def digitsOf.simps digitChar_def)
  from share_link_round_trip [OF a b c refl,
      of "- 7.5" False "((55.7539, 37.6208), 17)" None "[(''rot'', ''1''), (''m'', ''x''), (''rot'', ''2'')]"]
  show ?thesis unfolding t by blast
qed

end
